theory Spec2Isabelle
  imports Complex_Main "HOL-Library.Multiset" "HOL-Library.Sublist"
begin

section \<open>Data model of \<open>utils/datasets.py\<close>\<close>

text \<open>
  The label arrays of the source are two-dimensional numpy arrays of \<open>float32\<close>.  They are
  modelled as lists of rows over the reals: \<open>l.shape[0]\<close> is the number of rows and
  \<open>l.shape[1]\<close> the length of a row.  The empty array \<open>np.zeros((0, 5))\<close> is the empty list.
  Real arithmetic stands for the floating-point arithmetic of the source throughout; there is
  no NaN and no rounding in the model.
\<close>

type_synonym label_array = "real list list"

datatype py_error =
    KeyError
  | TypeError
  | ValueError
  | ZeroDivisionError
  | IndexError
  | LoadError
  | CvError
  | AssertionError string

text \<open>
  The cache of the source is one Python dict: image paths are mapped to the two-element list
  \<open>[l, shape]\<close> or to \<open>None\<close>, and the reserved key \<open>"hash"\<close>, in the same dict, to an integer.
\<close>

datatype cache_val =
    Entry label_array "nat \<times> nat"
  | Null
  | Hash nat

type_synonym cache = "string \<rightharpoonup> cache_val"

datatype stored = Pickled cache | Corrupt

text \<open>
  The part of the world that construction reads and writes.  \<open>sizes\<close> gives the byte size of
  every regular file among the image and label paths (\<open>os.path.isfile\<close>, \<open>os.path.getsize\<close>).
  \<open>image_shape\<close> is \<open>Image.open\<close>, \<open>verify\<close> and \<open>exif_size\<close> together, \<open>None\<close> when one of them
  raises.  \<open>read_label\<close> is the parse of an existing label file into an array, \<open>None\<close> when
  \<open>np.array\<close> raises.  \<open>cache_file\<close> holds the sidecar files written by \<open>paddle.save\<close>: the
  sidecar is named \<open><label-dir>.cache\<close> and is never one of the hashed paths, so it is kept
  apart from \<open>sizes\<close>.
\<close>

record fs =
  sizes :: "string \<rightharpoonup> nat"
  image_shape :: "string \<Rightarrow> (nat \<times> nat) option"
  read_label :: "string \<Rightarrow> label_array option"
  cache_file :: "string \<rightharpoonup> stored"

definition isfile :: "fs \<Rightarrow> string \<Rightarrow> bool" where
  "isfile w f = (sizes w f \<noteq> None)"

definition getsize :: "fs \<Rightarrow> string \<Rightarrow> nat" where
  "getsize w f = (case sizes w f of Some n \<Rightarrow> n | None \<Rightarrow> 0)"

text \<open>\<open>sum(os.path.getsize(f) for f in files if os.path.isfile(f))\<close>\<close>

definition get_hash :: "fs \<Rightarrow> string list \<Rightarrow> nat" where
  "get_hash w files = sum_list (map (getsize w) (filter (isfile w) files))"

subsection \<open>\<open>cache_labels\<close>\<close>

text \<open>
  The body of the \<open>try\<close> for one image and its label file.  Every exception raised inside is
  caught by the \<open>except\<close>, which stores \<open>None\<close> and prints a warning.
\<close>

definition scan_one :: "fs \<Rightarrow> string \<Rightarrow> string \<Rightarrow> cache_val" where
  "scan_one w img label =
     (case image_shape w img of
        None \<Rightarrow> Null
      | Some shape \<Rightarrow>
          if \<not> (fst shape > 9 \<and> snd shape > 9) then Null
          else (case (if isfile w label then read_label w label else Some []) of
                  None \<Rightarrow> Null
                | Some l \<Rightarrow> Entry l shape))"

text \<open>The loop over \<open>zip(self.img_files, self.label_files)\<close>: the dict and the warnings printed.\<close>

fun scan_files :: "fs \<Rightarrow> (string \<times> string) list \<Rightarrow> cache \<times> string list \<Rightarrow> cache \<times> string list" where
  "scan_files w [] acc = acc"
| "scan_files w ((img, label) # rest) (x, warnings) =
     (let v = scan_one w img label
      in scan_files w rest (x(img \<mapsto> v), if v = Null then warnings @ [img] else warnings))"

record cache_result =
  rc_cache :: cache
  rc_fs :: fs
  rc_warnings :: "string list"
  rc_scanned :: bool

definition cache_labels :: "fs \<Rightarrow> string list \<Rightarrow> string list \<Rightarrow> string \<Rightarrow> cache_result" where
  "cache_labels w img_files label_files path =
     (let (x0, warnings) = scan_files w (zip img_files label_files) (Map.empty, []);
          x = x0(''hash'' \<mapsto> Hash (get_hash w (label_files @ img_files)))
      in \<lparr> rc_cache = x,
           rc_fs = w\<lparr> cache_file := (cache_file w)(path \<mapsto> Pickled x) \<rparr>,
           rc_warnings = warnings,
           rc_scanned = True \<rparr>)"

subsection \<open>The cache check of \<open>LoadImagesAndLabels.__init__\<close>\<close>

text \<open>
  \<open>rc_scanned\<close> records whether \<open>cache_labels\<close> ran.  \<open>cache["hash"]\<close> raises \<open>KeyError\<close> when
  the loaded dict has no such key; \<open>!=\<close> between the stored value and the integer is true for
  every stored value that is not that integer.
\<close>

definition get_cache :: "fs \<Rightarrow> string list \<Rightarrow> string list \<Rightarrow> string \<Rightarrow> py_error + cache_result" where
  "get_cache w img_files label_files cache_path =
     (case cache_file w cache_path of
        None \<Rightarrow> Inr (cache_labels w img_files label_files cache_path)
      | Some Corrupt \<Rightarrow> Inl LoadError
      | Some (Pickled cache) \<Rightarrow>
          (case cache ''hash'' of
             None \<Rightarrow> Inl KeyError
           | Some v \<Rightarrow>
               if v \<noteq> Hash (get_hash w (label_files @ img_files))
               then Inr (cache_labels w img_files label_files cache_path)
               else Inr \<lparr> rc_cache = cache, rc_fs = w, rc_warnings = [], rc_scanned = False \<rparr>))"

text \<open>
  \<open>labels, shapes = zip(*[cache[x] for x in self.img_files])\<close>.  The comprehension runs first
  and raises \<open>KeyError\<close> at a path the dict does not hold.  \<open>zip\<close> then receives every looked-up
  value as one argument: a \<open>None\<close> (or an integer) among them is not iterable and raises
  \<open>TypeError\<close>.  With no image at all the unpacking into two names raises \<open>ValueError\<close>.
\<close>

fun lookup_all :: "cache \<Rightarrow> string list \<Rightarrow> py_error + cache_val list" where
  "lookup_all c [] = Inr []"
| "lookup_all c (x # xs) =
     (case c x of
        None \<Rightarrow> Inl KeyError
      | Some v \<Rightarrow> (case lookup_all c xs of Inl e \<Rightarrow> Inl e | Inr vs \<Rightarrow> Inr (v # vs)))"

fun unzip_entries :: "cache_val list \<Rightarrow> py_error + (label_array list \<times> (nat \<times> nat) list)" where
  "unzip_entries [] = Inr ([], [])"
| "unzip_entries (Entry l s # vs) =
     (case unzip_entries vs of Inl e \<Rightarrow> Inl e | Inr (ls, ss) \<Rightarrow> Inr (l # ls, s # ss))"
| "unzip_entries (_ # vs) = Inl TypeError"

definition get_labels_shapes :: "cache \<Rightarrow> string list \<Rightarrow> py_error + (label_array list \<times> (nat \<times> nat) list)" where
  "get_labels_shapes c img_files =
     (case lookup_all c img_files of
        Inl e \<Rightarrow> Inl e
      | Inr vs \<Rightarrow> if vs = [] then Inl ValueError else unzip_entries vs)"

subsection \<open>Rectangular batch shapes\<close>

text \<open>
  \<open>bi = np.floor(np.arange(n) / batch_size)\<close> and \<open>nb = bi[-1] + 1\<close>.  The source divides by
  \<open>batch_size\<close> in floating point; the model is meant for \<open>batch_size > 0\<close>.
\<close>

definition batch_index :: "nat \<Rightarrow> nat \<Rightarrow> nat list" where
  "batch_index n batch_size = map (\<lambda>j. j div batch_size) [0..<n]"

definition num_batches :: "nat \<Rightarrow> nat \<Rightarrow> nat" where
  "num_batches n batch_size = last (batch_index n batch_size) + 1"

text \<open>
  \<open>ar = s[:, 1] / s[:, 0]\<close> on the float64 array of shapes.  A zero in the first column makes
  numpy produce \<open>inf\<close> or \<open>nan\<close> without raising; shapes written by \<open>cache_labels\<close> are at
  least 10 in both components.
\<close>

definition aspect_ratios :: "(nat \<times> nat) list \<Rightarrow> real list" where
  "aspect_ratios s = map (\<lambda>(a, b). real b / real a) s"

text \<open>
  \<open>ar.argsort()\<close>.  numpy's default sort leaves the order of equal keys open; the model sorts
  stably.  The sorted values themselves, and so the batch shapes, do not depend on that.
\<close>

definition argsort :: "real list \<Rightarrow> nat list" where
  "argsort ar = sort_key (\<lambda>i. ar ! i) [0..<length ar]"

definition take_idx :: "'a list \<Rightarrow> nat list \<Rightarrow> 'a list" where
  "take_idx xs irect = map (\<lambda>i. xs ! i) irect"

text \<open>\<open>ar[bi == i]\<close>\<close>

definition batch_members :: "real list \<Rightarrow> nat list \<Rightarrow> nat \<Rightarrow> real list" where
  "batch_members ar bi i = map fst (filter (\<lambda>(a, b). b = i) (zip ar bi))"

fun amin :: "real list \<Rightarrow> py_error + real" where
  "amin [] = Inl ValueError"
| "amin (x # xs) = Inr (fold min xs x)"

fun amax :: "real list \<Rightarrow> py_error + real" where
  "amax [] = Inl ValueError"
| "amax (x # xs) = Inr (fold max xs x)"

text \<open>One turn of the loop \<open>for i in range(nb)\<close>: the entry of \<open>shapes\<close> for batch \<open>i\<close>.\<close>

definition rect_shape :: "real list \<Rightarrow> py_error + real \<times> real" where
  "rect_shape ari =
     (case amin ari of
        Inl e \<Rightarrow> Inl e
      | Inr mini \<Rightarrow>
          (case amax ari of
             Inl e \<Rightarrow> Inl e
           | Inr maxi \<Rightarrow>
               if maxi < 1 then Inr (maxi, 1)
               else if mini > 1 then Inr (1, 1 / mini)
               else Inr (1, 1)))"

fun rect_shapes :: "real list \<Rightarrow> nat list \<Rightarrow> nat list \<Rightarrow> py_error + (real \<times> real) list" where
  "rect_shapes ar bi [] = Inr []"
| "rect_shapes ar bi (i # is) =
     (case rect_shape (batch_members ar bi i) of
        Inl e \<Rightarrow> Inl e
      | Inr sh \<Rightarrow> (case rect_shapes ar bi is of Inl e \<Rightarrow> Inl e | Inr shs \<Rightarrow> Inr (sh # shs)))"

text \<open>\<open>np.ceil(np.array(shapes) * img_size / stride + pad).astype(np.int) * stride\<close>\<close>

definition round_up_shape :: "int \<Rightarrow> int \<Rightarrow> real \<Rightarrow> real \<times> real \<Rightarrow> int \<times> int" where
  "round_up_shape img_size stride pad sh =
     (\<lceil>fst sh * real_of_int img_size / real_of_int stride + pad\<rceil> * stride,
      \<lceil>snd sh * real_of_int img_size / real_of_int stride + pad\<rceil> * stride)"

definition batch_shapes_of :: "(nat \<times> nat) list \<Rightarrow> nat \<Rightarrow> int \<Rightarrow> int \<Rightarrow> real \<Rightarrow> py_error + (int \<times> int) list" where
  "batch_shapes_of s batch_size img_size stride pad =
     (let n = length s;
          bi = batch_index n batch_size;
          nb = num_batches n batch_size;
          ar0 = aspect_ratios s;
          irect = argsort ar0;
          ar = take_idx ar0 irect
      in case rect_shapes ar bi [0..<nb] of
           Inl e \<Rightarrow> Inl e
         | Inr shapes \<Rightarrow> Inr (map (round_up_shape img_size stride pad) shapes))"

text \<open>
  From the specification, for comparison: the square default shape, \<open>img_size\<close> rounded up to
  a multiple of the stride in both dimensions.
\<close>

definition square_default :: "int \<Rightarrow> int \<Rightarrow> int \<times> int" where
  "square_default img_size stride =
     (\<lceil>real_of_int img_size / real_of_int stride\<rceil> * stride,
      \<lceil>real_of_int img_size / real_of_int stride\<rceil> * stride)"

subsection \<open>The label checks of \<open>LoadImagesAndLabels.__init__\<close>\<close>

record counters =
  nm :: nat
  nf :: nat
  ne :: nat
  ns :: nat
  nd :: nat

text \<open>
  The three assertions on a non-empty array.  A numpy array is rectangular, so
  \<open>l.shape[1] == 5\<close> says that every row has five entries.  \<open>l[:, 1:]\<close> is every row without
  its first entry.
\<close>

definition five_columns :: "label_array \<Rightarrow> bool" where
  "five_columns l = list_all (\<lambda>r. length r = 5) l"

definition non_negative :: "label_array \<Rightarrow> bool" where
  "non_negative l = list_all (list_all (\<lambda>v. 0 \<le> v)) l"

definition normalized :: "label_array \<Rightarrow> bool" where
  "normalized l = list_all (\<lambda>r. list_all (\<lambda>v. v \<le> 1) (drop 1 r)) l"

text \<open>\<open>np.unique(l, axis=0).shape[0] < l.shape[0]\<close>\<close>

definition has_duplicates :: "label_array \<Rightarrow> bool" where
  "has_duplicates l = (length (remdups l) < length l)"

text \<open>\<open>l[:, 0] = 0\<close>\<close>

definition zero_class :: "label_array \<Rightarrow> label_array" where
  "zero_class l = map (\<lambda>r. r[0 := 0]) l"

text \<open>
  One turn of the loop \<open>for i, file in enumerate(pbar)\<close> on the array \<open>l = self.labels[i]\<close>:
  the new array and the new counters, or the assertion that failed.  The branches guarded by
  \<open>create_datasubset\<close> and \<open>extract_bounding_boxes\<close> are dead, both flags being the constant
  \<open>False\<close>.
\<close>

definition check_label :: "bool \<Rightarrow> string \<Rightarrow> label_array \<Rightarrow> counters \<Rightarrow> py_error + label_array \<times> counters" where
  "check_label single_cls file l c =
     (if l \<noteq> [] then
        if \<not> five_columns l then Inl (AssertionError (''> 5 label columns: '' @ file))
        else if \<not> non_negative l then Inl (AssertionError (''negative labels: '' @ file))
        else if \<not> normalized l then
          Inl (AssertionError (''non-normalized or out of bounds coordinate labels: '' @ file))
        else
          (let c1 = (if has_duplicates l then c\<lparr> nd := nd c + 1 \<rparr> else c);
               l1 = (if single_cls then zero_class l else l)
           in Inr (l1, c1\<lparr> nf := nf c1 + 1 \<rparr>))
      else Inr (l, c\<lparr> ne := ne c + 1 \<rparr>))"

text \<open>
  The loop runs over the label files and reads \<open>self.labels[i]\<close>: a label file without an
  array is an \<open>IndexError\<close>, arrays beyond the last file are left as they are.
\<close>

fun check_labels :: "bool \<Rightarrow> string list \<Rightarrow> label_array list \<Rightarrow> counters \<Rightarrow> py_error + label_array list \<times> counters" where
  "check_labels single_cls [] ls c = Inr (ls, c)"
| "check_labels single_cls (file # files) [] c = Inl IndexError"
| "check_labels single_cls (file # files) (l # ls) c =
     (case check_label single_cls file l c of
        Inl e \<Rightarrow> Inl e
      | Inr (l1, c1) \<Rightarrow>
          (case check_labels single_cls files ls c1 of
             Inl e \<Rightarrow> Inl e
           | Inr (ls1, c2) \<Rightarrow> Inr (l1 # ls1, c2)))"

subsection \<open>\<open>LoadImagesAndLabels.__init__\<close>\<close>

record hyp =
  degrees :: real
  translate :: real
  scale :: real
  shear :: real
  perspective :: real

record config =
  img_size :: int
  batch_size :: nat
  augment :: bool
  rect :: bool
  image_weights :: bool
  single_cls :: bool
  stride :: int
  pad :: real

record dataset =
  ds_img_files :: "string list"
  ds_label_files :: "string list"
  ds_labels :: "label_array list"
  ds_shapes :: "(nat \<times> nat) list"
  ds_batch_shapes :: "(int \<times> int) list option"
  ds_rect :: bool
  ds_mosaic :: bool
  ds_mosaic_border :: "int \<times> int"
  ds_counters :: counters
  ds_warnings :: "string list"
  ds_scanned :: bool
  ds_fs :: fs

text \<open>
  Construction from the sorted list of image paths on.  The globbing of paths that comes
  before is not modelled: \<open>label_files\<close> is the list derived from \<open>img_files\<close> by the textual
  replacement, of the same length, and \<open>cache_path\<close> is the name of the sidecar.
  \<open>-img_size // 2\<close> is \<open>(-img_size) // 2\<close> in Python.  The image cache filled under
  \<open>cache_images\<close> is left out.
\<close>

definition dataset_init :: "fs \<Rightarrow> config \<Rightarrow> string list \<Rightarrow> string list \<Rightarrow> string \<Rightarrow> py_error + dataset" where
  "dataset_init w cfg img_files label_files cache_path =
     (if length img_files = 0 then Inl (AssertionError ''No images found'')
      else if label_files = [] then Inl IndexError
      else case get_cache w img_files label_files cache_path of
        Inl e \<Rightarrow> Inl e
      | Inr r \<Rightarrow>
         (case get_labels_shapes (rc_cache r) img_files of
            Inl e \<Rightarrow> Inl e
          | Inr (labels, shapes) \<Rightarrow>
             (let rect1 = (if image_weights cfg then False else rect cfg);
                  irect = argsort (aspect_ratios shapes);
                  img_files1 = (if rect1 then take_idx img_files irect else img_files);
                  label_files1 = (if rect1 then take_idx label_files irect else label_files);
                  labels1 = (if rect1 then take_idx labels irect else labels);
                  shapes1 = (if rect1 then take_idx shapes irect else shapes)
              in case (if rect1
                       then map_sum id Some
                              (batch_shapes_of shapes (batch_size cfg) (img_size cfg) (stride cfg) (pad cfg))
                       else Inr None) of
                   Inl e \<Rightarrow> Inl e
                 | Inr bs \<Rightarrow>
                    (case check_labels (single_cls cfg) label_files1 labels1
                            \<lparr> nm = 0, nf = 0, ne = 0, ns = 0, nd = 0 \<rparr> of
                       Inl e \<Rightarrow> Inl e
                     | Inr (labels2, c) \<Rightarrow>
                         if nf c = 0 \<and> augment cfg
                         then Inl (AssertionError ''No labels found. Can not train without labels.'')
                         else Inr \<lparr> ds_img_files = img_files1,
                                    ds_label_files = label_files1,
                                    ds_labels = labels2,
                                    ds_shapes = shapes1,
                                    ds_batch_shapes = bs,
                                    ds_rect = rect1,
                                    ds_mosaic = (augment cfg \<and> \<not> rect1),
                                    ds_mosaic_border = ((- img_size cfg) div 2, (- img_size cfg) div 2),
                                    ds_counters = c,
                                    ds_warnings = rc_warnings r,
                                    ds_scanned = rc_scanned r,
                                    ds_fs = rc_fs r \<rparr>))))"

section \<open>Images, random draws and Python arithmetic\<close>

text \<open>
  An image is a numpy array of shape \<open>(height, width, channels)\<close>: the shape and the function
  from a row and a column to the list of channel values there.
\<close>

record image =
  height :: nat
  width :: nat
  channels :: nat
  pixel :: "nat \<Rightarrow> nat \<Rightarrow> nat list"

text \<open>
  What the model takes from the libraries beneath the code.  From OpenCV: the resampled pixels
  of \<open>cv2.resize\<close>, \<open>cv2.warpAffine\<close> and \<open>cv2.warpPerspective\<close>; the shape of their results is
  the \<open>dsize\<close> asked for.  From the floating-point arithmetic of numpy: \<open>add_eps x\<close> is the sum
  \<open>x + 1e-16\<close> as that arithmetic rounds it.  The rounded sum is not the exact one: next to a
  value of 1 or more the addend is less than half the distance between neighbouring floats,
  in \<open>float32\<close> and in \<open>float64\<close>, and the sum is the value itself.
\<close>

record backend =
  resize_px :: "image \<Rightarrow> nat \<Rightarrow> nat \<Rightarrow> nat \<Rightarrow> nat \<Rightarrow> nat list"
  warp_affine_px :: "image \<Rightarrow> real list list \<Rightarrow> nat \<Rightarrow> nat \<Rightarrow> nat list"
  warp_perspective_px :: "image \<Rightarrow> real list list \<Rightarrow> nat \<Rightarrow> nat \<Rightarrow> nat list"
  add_eps :: "real \<Rightarrow> real"



text \<open>
  \<open>random.uniform(a, b)\<close> is \<open>a + (b - a) * random()\<close>; the argument \<open>u\<close> is the value of
  \<open>random()\<close>, in \<open>[0, 1)\<close>.  \<open>random.randint(a, b)\<close> raises \<open>ValueError\<close> on an empty range and
  else adds to \<open>a\<close> a number below \<open>b - a + 1\<close>; the argument \<open>k\<close> is the generator's output,
  reduced to that range.
\<close>

definition uniform :: "real \<Rightarrow> real \<Rightarrow> real \<Rightarrow> real" where
  "uniform a b u = a + (b - a) * u"

definition randint :: "int \<Rightarrow> int \<Rightarrow> nat \<Rightarrow> py_error + int" where
  "randint a b k = (if b < a then Inl ValueError else Inr (a + int (k mod nat (b - a + 1))))"

text \<open>
  The bounds of a Python slice \<open>[a:b]\<close> on an axis of length \<open>n\<close>: a negative bound counts
  from the end, and both are cut to \<open>0 .. n\<close>.
\<close>

definition slice_bound :: "nat \<Rightarrow> int \<Rightarrow> nat" where
  "slice_bound n a = (if a < 0 then nat (max (a + int n) 0) else min (nat a) n)"

section \<open>Geometry kernel\<close>

subsection \<open>\<open>letterbox\<close>\<close>








subsection \<open>\<open>box_candidates\<close> and \<open>random_perspective\<close>\<close>

text \<open>
  Boxes are \<open>(x1, y1, x2, y2)\<close>; the defaults of the thresholds are those of the source.  The
  three sums \<open>h2 + 1e-16\<close>, \<open>w2 + 1e-16\<close> and \<open>w1 * h1 + 1e-16\<close> are floating-point sums: the
  argument \<open>fadd\<close> is \<open>add_eps\<close>.
\<close>

type_synonym box = "real \<times> real \<times> real \<times> real"

definition box_candidates :: "(real \<Rightarrow> real) \<Rightarrow> box \<Rightarrow> box \<Rightarrow> real \<Rightarrow> real \<Rightarrow> real \<Rightarrow> bool" where
  "box_candidates fadd box1 box2 wh_thr ar_thr area_thr =
     (case box1 of (a0, a1, a2, a3) \<Rightarrow> (case box2 of (b0, b1, b2, b3) \<Rightarrow>
        (let w1 = a2 - a0; h1 = a3 - a1;
             w2 = b2 - b0; h2 = b3 - b1;
             ar = max (w2 / fadd h2) (h2 / fadd w2)
         in w2 > wh_thr \<and> h2 > wh_thr \<and> w2 * h2 / fadd (w1 * h1) > area_thr \<and> ar < ar_thr)))"

definition eye3 :: "real list list" where
  "eye3 = [[1, 0, 0], [0, 1, 0], [0, 0, 1]]"

definition mat_mul :: "real list list \<Rightarrow> real list list \<Rightarrow> real list list" where
  "mat_mul A B = map (\<lambda>r. map (\<lambda>j. r ! 0 * B ! 0 ! j + r ! 1 * B ! 1 ! j + r ! 2 * B ! 2 ! j) [0, 1, 2]) A"

text \<open>A row \<open>[x, y, 1]\<close> of \<open>xy\<close> times \<open>M.T\<close>.\<close>

definition apply_mat :: "real list list \<Rightarrow> real \<times> real \<Rightarrow> real \<times> real \<times> real" where
  "apply_mat M p =
     (M ! 0 ! 0 * fst p + M ! 0 ! 1 * snd p + M ! 0 ! 2,
      M ! 1 ! 0 * fst p + M ! 1 ! 1 * snd p + M ! 1 ! 2,
      M ! 2 ! 0 * fst p + M ! 2 ! 1 * snd p + M ! 2 ! 2)"

text \<open>The eight values of \<open>random()\<close> behind the eight calls of \<open>random.uniform\<close>, in order.\<close>

record rp_draws =
  u_p0 :: real
  u_p1 :: real
  u_a :: real
  u_s :: real
  u_sh0 :: real
  u_sh1 :: real
  u_t0 :: real
  u_t1 :: real

text \<open>\<open>cv2.getRotationMatrix2D(angle=a, center=(0, 0), scale=s)\<close>, with the row \<open>[0, 0, 1]\<close> of \<open>R\<close>.\<close>

definition rotation_matrix :: "real \<Rightarrow> real \<Rightarrow> real list list" where
  "rotation_matrix a s =
     (let alpha = s * cos (a * pi / 180); beta = s * sin (a * pi / 180)
      in [[alpha, beta, 0], [- beta, alpha, 0], [0, 0, 1]])"

definition transform_matrix :: "image \<Rightarrow> hyp \<Rightarrow> int \<times> int \<Rightarrow> rp_draws \<Rightarrow> real list list" where
  "transform_matrix img hp border d =
     (let height1 = int (height img) + fst border * 2;
          width1 = int (width img) + snd border * 2;
          C = [[1, 0, - real (width img) / 2], [0, 1, - real (height img) / 2], [0, 0, 1]];
          P = [[1, 0, 0], [0, 1, 0],
               [uniform (- perspective hp) (perspective hp) (u_p0 d),
                uniform (- perspective hp) (perspective hp) (u_p1 d), 1]];
          a = uniform (- degrees hp) (degrees hp) (u_a d);
          s = uniform (1 - scale hp) (1 + scale hp) (u_s d);
          R = rotation_matrix a s;
          S = [[1, tan (uniform (- shear hp) (shear hp) (u_sh0 d) * pi / 180), 0],
               [tan (uniform (- shear hp) (shear hp) (u_sh1 d) * pi / 180), 1, 0],
               [0, 0, 1]];
          T = [[1, 0, uniform (1 / 2 - translate hp) (1 / 2 + translate hp) (u_t0 d) * real_of_int width1],
               [0, 1, uniform (1 / 2 - translate hp) (1 / 2 + translate hp) (u_t1 d) * real_of_int height1],
               [0, 0, 1]]
      in mat_mul (mat_mul (mat_mul (mat_mul T S) R) P) C)"

definition clip :: "real \<Rightarrow> real \<Rightarrow> real \<Rightarrow> real" where
  "clip lo hi v = min (max v lo) hi"

text \<open>
  The new box of one target row \<open>[cls, x1, y1, x2, y2]\<close>: the four corners are mapped, divided
  by the third coordinate under perspective, bounded and clipped to the output canvas.
\<close>

definition warp_box :: "real list list \<Rightarrow> bool \<Rightarrow> real \<Rightarrow> real \<Rightarrow> real list \<Rightarrow> box" where
  "warp_box M persp width1 height1 t =
     (let corners = [(t ! 1, t ! 2), (t ! 3, t ! 4), (t ! 1, t ! 4), (t ! 3, t ! 2)];
          q = map (\<lambda>p. case apply_mat M p of (x, y, z) \<Rightarrow> if persp then (x / z, y / z) else (x, y)) corners;
          xs = map fst q;
          ys = map snd q
      in (clip 0 width1 (fold min (tl xs) (hd xs)),
          clip 0 height1 (fold min (tl ys) (hd ys)),
          clip 0 width1 (fold max (tl xs) (hd xs)),
          clip 0 height1 (fold max (tl ys) (hd ys))))"

definition set_box :: "real list \<Rightarrow> box \<Rightarrow> real list" where
  "set_box t b = (case b of (x1, y1, x2, y2) \<Rightarrow> t[1 := x1, 2 := y1, 3 := x2, 4 := y2])"

definition cv_warp :: "backend \<Rightarrow> bool \<Rightarrow> image \<Rightarrow> real list list \<Rightarrow> int \<times> int \<Rightarrow> py_error + image" where
  "cv_warp cv persp img M dsize =
     (if fst dsize \<le> 0 \<or> snd dsize \<le> 0 then Inl CvError
      else Inr \<lparr> height = nat (snd dsize), width = nat (fst dsize), channels = channels img,
                 pixel = (if persp then warp_perspective_px cv img M
                          else warp_affine_px cv img (take 2 M)) \<rparr>)"

definition random_perspective ::
  "backend \<Rightarrow> image \<Rightarrow> label_array \<Rightarrow> hyp \<Rightarrow> int \<times> int \<Rightarrow> rp_draws \<Rightarrow> py_error + image \<times> label_array" where
  "random_perspective cv img targets hp border d =
     (let height1 = int (height img) + fst border * 2;
          width1 = int (width img) + snd border * 2;
          s = uniform (1 - scale hp) (1 + scale hp) (u_s d);
          M = transform_matrix img hp border d;
          persp = (perspective hp \<noteq> 0)
      in case (if fst border \<noteq> 0 \<or> snd border \<noteq> 0 \<or> M \<noteq> eye3
               then cv_warp cv persp img M (width1, height1) else Inr img) of
           Inl e \<Rightarrow> Inl e
         | Inr img1 \<Rightarrow>
             Inr (img1,
                  map (\<lambda>t. set_box t (warp_box M persp (real_of_int width1) (real_of_int height1) t))
                    (filter (\<lambda>t. box_candidates (add_eps cv) (t ! 1 * s, t ! 2 * s, t ! 3 * s, t ! 4 * s)
                                    (warp_box M persp (real_of_int width1) (real_of_int height1) t) 2 20 (2 / 10))
                       targets)))"


section \<open>Mosaic compositor\<close>

text \<open>
  \<open>load_image(self, index)\<close> reads and resizes the image file, or takes the image from
  \<open>self.imgs\<close>; the model is given the list of the images that it returns, one per index.
\<close>

definition load_image :: "image list \<Rightarrow> nat \<Rightarrow> py_error + image" where
  "load_image imgs index = (if index < length imgs then Inr (imgs ! index) else Inl IndexError)"

text \<open>\<open>np.full((s * 2, s * 2, c), 114, dtype=np.uint8)\<close>\<close>

definition full_canvas :: "int \<Rightarrow> nat \<Rightarrow> py_error + image" where
  "full_canvas s c =
     (if s < 0 then Inl ValueError
      else Inr \<lparr> height = nat (s * 2), width = nat (s * 2), channels = c,
                 pixel = (\<lambda>y x. replicate c 114) \<rparr>)"

text \<open>
  The two rectangles of the branch \<open>i\<close>: \<open>(x1a, y1a, x2a, y2a)\<close> on the canvas and
  \<open>(x1b, y1b, x2b, y2b)\<close> on the source, for the centre \<open>(xc, yc)\<close> and a source of width \<open>w\<close>
  and height \<open>h\<close>.
\<close>

type_synonym rect = "int \<times> int \<times> int \<times> int"

definition placement :: "nat \<Rightarrow> int \<Rightarrow> int \<Rightarrow> int \<Rightarrow> int \<Rightarrow> int \<Rightarrow> rect \<times> rect" where
  "placement i s xc yc w h =
     (if i = 0 then
        (let x1a = max (xc - w) 0; y1a = max (yc - h) 0; x2a = xc; y2a = yc
         in ((x1a, y1a, x2a, y2a), (w - (x2a - x1a), h - (y2a - y1a), w, h)))
      else if i = 1 then
        (let x1a = xc; y1a = max (yc - h) 0; x2a = min (xc + w) (s * 2); y2a = yc
         in ((x1a, y1a, x2a, y2a), (0, h - (y2a - y1a), min w (x2a - x1a), h)))
      else if i = 2 then
        (let x1a = max (xc - w) 0; y1a = yc; x2a = xc; y2a = min (s * 2) (yc + h)
         in ((x1a, y1a, x2a, y2a), (w - (x2a - x1a), 0, max xc w, min (y2a - y1a) h)))
      else
        (let x1a = xc; y1a = yc; x2a = min (xc + w) (s * 2); y2a = min (s * 2) (yc + h)
         in ((x1a, y1a, x2a, y2a), (0, 0, min w (x2a - x1a), min (y2a - y1a) h))))"

text \<open>
  \<open>img4[y1a:y2a, x1a:x2a] = img[y1b:y2b, x1b:x2b]\<close>.  numpy stretches a source axis of
  length one over the target and raises \<open>ValueError\<close> on every other difference of shape.
\<close>

definition paste :: "image \<Rightarrow> rect \<Rightarrow> image \<Rightarrow> rect \<Rightarrow> py_error + image" where
  "paste dst ra src rb =
     (case ra of (x1a, y1a, x2a, y2a) \<Rightarrow> (case rb of (x1b, y1b, x2b, y2b) \<Rightarrow>
       (let ya = slice_bound (height dst) y1a; ya2 = slice_bound (height dst) y2a;
            xa = slice_bound (width dst) x1a; xa2 = slice_bound (width dst) x2a;
            yb = slice_bound (height src) y1b; yb2 = slice_bound (height src) y2b;
            xb = slice_bound (width src) x1b; xb2 = slice_bound (width src) x2b
        in if (yb2 - yb \<noteq> ya2 - ya \<and> yb2 - yb \<noteq> 1)
              \<or> (xb2 - xb \<noteq> xa2 - xa \<and> xb2 - xb \<noteq> 1)
              \<or> (channels src \<noteq> channels dst \<and> channels src \<noteq> 1)
           then Inl ValueError
           else Inr (dst\<lparr> pixel :=
                  (\<lambda>y x. if ya \<le> y \<and> y < ya2 \<and> xa \<le> x \<and> x < xa2
                          then (let p = pixel src (if yb2 - yb = 1 then yb else y - ya + yb)
                                                  (if xb2 - xb = 1 then xb else x - xa + xb)
                                in if channels src = channels dst then p
                                   else replicate (channels dst) (hd p))
                          else pixel dst y x) \<rparr>))))"

text \<open>
  The four assignments to the columns 1 to 4 of a copy of the label rows \<open>(cls, cx, cy, w, h)\<close>
  of a source of width \<open>w\<close> and height \<open>h\<close>.
\<close>

definition place_row :: "int \<Rightarrow> int \<Rightarrow> int \<Rightarrow> int \<Rightarrow> real list \<Rightarrow> real list" where
  "place_row w h padw padh x =
     x[1 := real_of_int w * (x ! 1 - x ! 3 / 2) + real_of_int padw,
       2 := real_of_int h * (x ! 2 - x ! 4 / 2) + real_of_int padh,
       3 := real_of_int w * (x ! 1 + x ! 3 / 2) + real_of_int padw,
       4 := real_of_int h * (x ! 2 + x ! 4 / 2) + real_of_int padh]"

text \<open>
  The labels of the source placed by the branch \<open>i\<close>: \<open>padw = x1a - x1b\<close>, \<open>padh = y1a - y1b\<close>,
  and the rows are rewritten if \<open>x.size > 0\<close>.
\<close>

definition place_labels :: "nat \<Rightarrow> int \<Rightarrow> image \<Rightarrow> label_array \<Rightarrow> label_array" where
  "place_labels i s img x =
     (let h = int (height img); w = int (width img) in
      (case placement i s s s w h of
         (ra, rb) \<Rightarrow>
           (let padw = fst ra - fst rb;
                padh = fst (snd ra) - fst (snd rb)
            in if x \<noteq> [] then map (place_row w h padw padh) x else x)))"

text \<open>One turn of \<open>for i, index in enumerate(indices)\<close>; the centre is \<open>yc, xc = s, s\<close>.\<close>

definition mosaic_step ::
  "int \<Rightarrow> image list \<Rightarrow> label_array list \<Rightarrow> image option \<times> label_array list \<Rightarrow> nat \<times> nat
     \<Rightarrow> py_error + image option \<times> label_array list" where
  "mosaic_step s imgs labels st e =
     (case st of (img4, labels4) \<Rightarrow> (case e of (i, index) \<Rightarrow>
      (case load_image imgs index of
         Inl err \<Rightarrow> Inl err
       | Inr img \<Rightarrow>
          (let h = int (height img); w = int (width img) in
           (case (if i = 0 then full_canvas s (channels img)
                  else (case img4 of None \<Rightarrow> Inl TypeError | Some c \<Rightarrow> Inr c)) of
              Inl err \<Rightarrow> Inl err
            | Inr canvas \<Rightarrow>
               (case placement i s s s w h of
                  (ra, rb) \<Rightarrow>
                   (case paste canvas ra img rb of
                      Inl err \<Rightarrow> Inl err
                    | Inr canvas1 \<Rightarrow>
                       if \<not> index < length labels then Inl IndexError
                       else Inr (Some canvas1, labels4 @ [place_labels i s img (labels ! index)]))))))))"

fun mosaic_loop ::
  "int \<Rightarrow> image list \<Rightarrow> label_array list \<Rightarrow> image option \<times> label_array list \<Rightarrow> (nat \<times> nat) list
     \<Rightarrow> py_error + image option \<times> label_array list" where
  "mosaic_loop s imgs labels st [] = Inr st"
| "mosaic_loop s imgs labels st (e # es) =
     (case mosaic_step s imgs labels st e of
        Inl err \<Rightarrow> Inl err
      | Inr st1 \<Rightarrow> mosaic_loop s imgs labels st1 es)"

text \<open>\<open>np.clip(labels4[:, 1:], 0, 2 * s, out=labels4[:, 1:])\<close> on one row.\<close>

definition clip_row :: "int \<Rightarrow> real list \<Rightarrow> real list" where
  "clip_row s r = take 1 r @ map (clip 0 (real_of_int (2 * s))) (drop 1 r)"

text \<open>
  \<open>[index] + [random.randint(0, len(self.labels) - 1) for _ in range(3)]\<close>, the three draws
  being \<open>k1\<close>, \<open>k2\<close>, \<open>k3\<close>.
\<close>

definition mosaic_indices :: "nat \<Rightarrow> nat \<Rightarrow> nat \<Rightarrow> nat \<Rightarrow> nat \<Rightarrow> py_error + nat list" where
  "mosaic_indices n index k1 k2 k3 =
     (case randint 0 (int n - 1) k1 of Inl e \<Rightarrow> Inl e | Inr i1 \<Rightarrow>
       (case randint 0 (int n - 1) k2 of Inl e \<Rightarrow> Inl e | Inr i2 \<Rightarrow>
         (case randint 0 (int n - 1) k3 of Inl e \<Rightarrow> Inl e | Inr i3 \<Rightarrow>
            Inr [index, nat i1, nat i2, nat i3])))"

record loader =
  ld_img_size :: int
  ld_imgs :: "image list"
  ld_labels :: "label_array list"
  ld_hyp :: hyp
  ld_mosaic_border :: "int \<times> int"

text \<open>The canvas and the labels handed to \<open>random_perspective\<close>.\<close>

definition mosaic_compose :: "loader \<Rightarrow> nat \<Rightarrow> nat \<Rightarrow> nat \<Rightarrow> nat \<Rightarrow> py_error + image \<times> label_array" where
  "mosaic_compose self index k1 k2 k3 =
     (let s = ld_img_size self in
      case mosaic_indices (length (ld_labels self)) index k1 k2 k3 of
        Inl e \<Rightarrow> Inl e
      | Inr indices \<Rightarrow>
         (case mosaic_loop s (ld_imgs self) (ld_labels self) (None, []) (zip [0, 1, 2, 3] indices) of
            Inl e \<Rightarrow> Inl e
          | Inr (None, labels4) \<Rightarrow> Inl TypeError
          | Inr (Some img4, labels4) \<Rightarrow> Inr (img4, map (clip_row s) (concat labels4))))"

definition load_mosaic ::
  "backend \<Rightarrow> loader \<Rightarrow> nat \<Rightarrow> nat \<Rightarrow> nat \<Rightarrow> nat \<Rightarrow> rp_draws \<Rightarrow> py_error + image \<times> label_array" where
  "load_mosaic cv self index k1 k2 k3 d =
     (case mosaic_compose self index k1 k2 k3 of
        Inl e \<Rightarrow> Inl e
      | Inr (img4, labels4) \<Rightarrow>
          random_perspective cv img4 labels4 (ld_hyp self) (ld_mosaic_border self) d)"

text \<open>
  For stating where a source lands: \<open>in_quad\<close> says that the canvas position \<open>(y, x)\<close> lies in
  the rectangle \<open>(x1a, y1a, x2a, y2a)\<close> of the branch \<open>i\<close> for the source \<open>img\<close>, \<open>quad_pixel\<close> is the
  pixel of the source that the slice assignment puts there, \<open>placed_row\<close> is what the branch
  \<open>i\<close> and the clip to the canvas make of one label row of the source, and \<open>in_quad_box\<close> says
  that the box of a label row lies in that rectangle.
\<close>

definition in_quad :: "nat \<Rightarrow> int \<Rightarrow> image \<Rightarrow> nat \<Rightarrow> nat \<Rightarrow> bool" where
  "in_quad i s img y x =
     (case fst (placement i s s s (int (width img)) (int (height img))) of
        (x1a, y1a, x2a, y2a) \<Rightarrow> y1a \<le> int y \<and> int y < y2a \<and> x1a \<le> int x \<and> int x < x2a)"

definition quad_pixel :: "nat \<Rightarrow> int \<Rightarrow> image \<Rightarrow> nat \<Rightarrow> nat \<Rightarrow> nat list" where
  "quad_pixel i s img y x =
     (case placement i s s s (int (width img)) (int (height img)) of
        ((x1a, y1a, x2a, y2a), (x1b, y1b, x2b, y2b)) \<Rightarrow>
          pixel img (nat (int y - y1a + y1b)) (nat (int x - x1a + x1b)))"

definition placed_row :: "nat \<Rightarrow> int \<Rightarrow> image \<Rightarrow> real list \<Rightarrow> real list" where
  "placed_row i s img r = hd (map (clip_row s) (place_labels i s img [r]))"

definition in_quad_box :: "nat \<Rightarrow> int \<Rightarrow> image \<Rightarrow> real list \<Rightarrow> bool" where
  "in_quad_box i s img r =
     (case fst (placement i s s s (int (width img)) (int (height img))) of
        (x1a, y1a, x2a, y2a) \<Rightarrow>
          real_of_int x1a \<le> r ! 1 \<and> r ! 1 \<le> real_of_int x2a
        \<and> real_of_int x1a \<le> r ! 3 \<and> r ! 3 \<le> real_of_int x2a
        \<and> real_of_int y1a \<le> r ! 2 \<and> r ! 2 \<le> real_of_int y2a
        \<and> real_of_int y1a \<le> r ! 4 \<and> r ! 4 \<le> real_of_int y2a)"

text \<open>
  The object \<open>self\<close> as \<open>load_mosaic\<close> reads it after construction: \<open>img_size\<close>, the labels and
  \<open>mosaic_border\<close> are those set by \<open>__init__\<close>, \<open>hyp\<close> is the argument of the constructor, and
  \<open>imgs\<close> are the images that \<open>load_image\<close> returns.
\<close>

definition loader_of :: "config \<Rightarrow> hyp \<Rightarrow> dataset \<Rightarrow> image list \<Rightarrow> loader" where
  "loader_of cfg hp ds imgs =
     \<lparr> ld_img_size = img_size cfg, ld_imgs = imgs, ld_labels = ds_labels ds, ld_hyp = hp,
       ld_mosaic_border = ds_mosaic_border ds \<rparr>"

text \<open>The pixel at \<open>(y, x)\<close> of the canvas that \<open>mosaic_compose\<close> returns, if it returns.\<close>

definition pixel_at :: "py_error + image \<times> label_array \<Rightarrow> nat \<Rightarrow> nat \<Rightarrow> nat list option" where
  "pixel_at res y x = (case res of Inl e \<Rightarrow> None | Inr (img, l) \<Rightarrow> Some (pixel img y x))"

section \<open>Photometric augmentor: \<open>cutout\<close>\<close>

text \<open>\<open>[0.5] * 1 + [0.25] * 2 + [0.125] * 4 + [0.0625] * 8 + [0.03125] * 16\<close>\<close>

definition scales :: "real list" where
  "scales = replicate 1 (5 / 10) @ replicate 2 (25 / 100) @ replicate 4 (125 / 1000)
            @ replicate 8 (625 / 10000) @ replicate 16 (3125 / 100000)"












section \<open>Concrete inputs\<close>

text \<open>
  Three images in one directory.  \<open>images/b.jpg\<close> cannot be opened, \<open>images/c.jpg\<close> has no
  label file, and no sidecar has been written yet.
\<close>

definition fs0 :: fs where
  "fs0 = \<lparr> sizes = [''images/a.jpg'' \<mapsto> 1000, ''labels/a.txt'' \<mapsto> 40, ''images/b.jpg'' \<mapsto> 500,
                    ''images/c.jpg'' \<mapsto> 700],
           image_shape = (\<lambda>p. if p = ''images/a.jpg'' then Some (640, 480)
                                else if p = ''images/c.jpg'' then Some (320, 240) else None),
           read_label = (\<lambda>p. if p = ''labels/a.txt'' then Some [[0, 1 / 2, 1 / 2, 1 / 5, 1 / 5]] else None),
           cache_file = Map.empty \<rparr>"

definition imgs0 :: "string list" where
  "imgs0 = [''images/a.jpg'', ''images/b.jpg'', ''images/c.jpg'']"

definition labs0 :: "string list" where
  "labs0 = [''labels/a.txt'', ''labels/b.txt'', ''labels/c.txt'']"

definition cfg0 :: config where
  "cfg0 = \<lparr> img_size = 640, batch_size = 3, augment = False, rect = False, image_weights = False,
             single_cls = False, stride = 32, pad = 0 \<rparr>"

text \<open>The same three images, all of them readable.\<close>

definition fs1 :: fs where
  "fs1 = fs0\<lparr> image_shape := (\<lambda>p. if p = ''images/b.jpg'' then Some (100, 200) else image_shape fs0 p) \<rparr>"

text \<open>Three label arrays: one with a repeated row, one empty, one with a single row.\<close>

definition labels_dup :: "label_array list" where
  "labels_dup = [[[0, 1 / 2, 1 / 2, 1 / 5, 1 / 5], [0, 1 / 2, 1 / 2, 1 / 5, 1 / 5]],
                 [],
                 [[1, 1 / 10, 1 / 10, 1 / 10, 1 / 10]]]"

definition counters0 :: counters where
  "counters0 = \<lparr> nm = 0, nf = 0, ne = 0, ns = 0, nd = 0 \<rparr>"

text \<open>
  A backend: OpenCV stand-ins that fill every resampled pixel with zeros, and a sum with
  \<open>1e-16\<close> that returns a value of 1 or more as it is, as \<open>float32\<close> and \<open>float64\<close> do, and is
  exact below 1.  And blank images.
\<close>

definition absorb :: "real \<Rightarrow> real" where
  "absorb x = (if 1 \<le> x then x else x + 1 / 10 ^ 16)"

definition cv0 :: backend where
  "cv0 = \<lparr> resize_px = (\<lambda>img w h y x. replicate (channels img) 0),
           warp_affine_px = (\<lambda>img M y x. replicate (channels img) 0),
           warp_perspective_px = (\<lambda>img M y x. replicate (channels img) 0),
           add_eps = absorb \<rparr>"

definition blank :: "nat \<Rightarrow> nat \<Rightarrow> image" where
  "blank h w = \<lparr> height = h, width = w, channels = 3, pixel = (\<lambda>y x. [0, 0, 0]) \<rparr>"


text \<open>
  The identity parameters of \<open>random_perspective\<close>: with \<open>scale = 0\<close> the scale factor is drawn
  from \<open>[1, 1]\<close>.  \<open>rp0\<close> is one set of draws.
\<close>

definition id_hyp :: hyp where
  "id_hyp = \<lparr> degrees = 0, translate = 0, scale = 0, shear = 0, perspective = 0 \<rparr>"

definition rp0 :: rp_draws where
  "rp0 = \<lparr> u_p0 = 1 / 2, u_p1 = 1 / 2, u_a = 1 / 2, u_s = 1 / 2, u_sh0 = 1 / 2, u_sh1 = 1 / 2,
           u_t0 = 1 / 2, u_t1 = 1 / 2 \<rparr>"

text \<open>
  An image whose pixel at \<open>(y, x)\<close> is \<open>[y, x, 0]\<close>, and three loaders with \<open>img_size = 100\<close>: one
  with that image alone, one with a single image whose label has the centre \<open>(1, 1)\<close> and the
  size \<open>(1, 1)\<close>, and one with two images of different sizes, the first with a label inside the
  image and a label that reaches outside it.
\<close>

definition grad :: "nat \<Rightarrow> nat \<Rightarrow> image" where
  "grad h w = \<lparr> height = h, width = w, channels = 3, pixel = (\<lambda>y x. [y, x, 0]) \<rparr>"

definition ld_grad :: loader where
  "ld_grad = \<lparr> ld_img_size = 100, ld_imgs = [grad 60 80], ld_labels = [[]], ld_hyp = id_hyp,
               ld_mosaic_border = (- 50, - 50) \<rparr>"

definition ld_edge :: loader where
  "ld_edge = \<lparr> ld_img_size = 100, ld_imgs = [blank 100 100], ld_labels = [[[0, 1, 1, 1, 1]]],
               ld_hyp = id_hyp, ld_mosaic_border = (- 50, - 50) \<rparr>"

definition ld_two :: loader where
  "ld_two = \<lparr> ld_img_size = 100, ld_imgs = [blank 60 80, blank 100 50],
              ld_labels = [[[0, 1 / 2, 1 / 2, 1 / 5, 1 / 5], [0, 1, 1, 1, 1]], []],
              ld_hyp = id_hyp, ld_mosaic_border = (- 50, - 50) \<rparr>"

section \<open>Label cache\<close>

lemma get_hash_sum:
  "get_hash w files = sum_list (map (\<lambda>f. case sizes w f of None \<Rightarrow> 0 | Some n \<Rightarrow> n) files)"
  by (induction files) (auto simp: get_hash_def isfile_def getsize_def split: option.splits)

lemma get_hash_touch:
  assumes "sizes w p = None"
  shows "get_hash (w\<lparr> sizes := (sizes w)(p \<mapsto> 0) \<rparr>) files = get_hash w files"
  using assms by (induction files) (auto simp: get_hash_def isfile_def getsize_def split: option.splits)

lemma get_hash_cong: "sizes w1 = sizes w2 \<Longrightarrow> get_hash w1 files = get_hash w2 files"
  by (simp add: get_hash_sum)

lemma cache_labels_hash:
  "rc_cache (cache_labels w i l p) ''hash'' = Some (Hash (get_hash w (l @ i)))"
  by (simp add: cache_labels_def Let_def split: prod.splits)

lemma cache_labels_file:
  "cache_file (rc_fs (cache_labels w i l p)) p = Some (Pickled (rc_cache (cache_labels w i l p)))"
  by (simp add: cache_labels_def Let_def split: prod.splits)

lemma cache_labels_sizes: "sizes (rc_fs (cache_labels w i l p)) = sizes w"
  by (simp add: cache_labels_def Let_def split: prod.splits)




text \<open>
  Claim C10.  \<open>get_hash\<close> is the sum over the listed paths of the size of the file there, a
  path without a file counting 0.  Creating an empty file at a path where there was none
  leaves the hash of every list of paths as it was, and a sidecar whose stored hash was valid
  before is still taken without a scan afterwards.
\<close>

theorem empty_label_file_keeps_cache_valid:
  assumes "sizes w p = None"
    and "cache_file w cache_path = Some (Pickled c)"
    and "c ''hash'' = Some (Hash (get_hash w (label_files @ img_files)))"
  shows "get_hash w files = sum_list (map (\<lambda>f. case sizes w f of None \<Rightarrow> 0 | Some n \<Rightarrow> n) files)
       \<and> get_hash (w\<lparr> sizes := (sizes w)(p \<mapsto> 0) \<rparr>) files = get_hash w files
       \<and> get_cache (w\<lparr> sizes := (sizes w)(p \<mapsto> 0) \<rparr>) img_files label_files cache_path
           = Inr \<lparr> rc_cache = c, rc_fs = w\<lparr> sizes := (sizes w)(p \<mapsto> 0) \<rparr>,
                   rc_warnings = [], rc_scanned = False \<rparr>"
proof -
  have "get_cache (w\<lparr> sizes := (sizes w)(p \<mapsto> 0) \<rparr>) img_files label_files cache_path
           = Inr \<lparr> rc_cache = c, rc_fs = w\<lparr> sizes := (sizes w)(p \<mapsto> 0) \<rparr>,
                   rc_warnings = [], rc_scanned = False \<rparr>"
    using assms(2,3) by (simp add: get_cache_def get_hash_touch[OF assms(1)])
  then show ?thesis
    using get_hash_sum[of w files] get_hash_touch[OF assms(1), of files] by simp
qed

theorem empty_label_file_keeps_cache_valid_witness:
  "get_hash (rc_fs (cache_labels fs0 imgs0 labs0 ''labels.cache'')
               \<lparr> sizes := (sizes (rc_fs (cache_labels fs0 imgs0 labs0 ''labels.cache'')))(''labels/b.txt'' \<mapsto> 0) \<rparr>)
            (labs0 @ imgs0)
     = get_hash (rc_fs (cache_labels fs0 imgs0 labs0 ''labels.cache'')) (labs0 @ imgs0)
   \<and> get_cache (rc_fs (cache_labels fs0 imgs0 labs0 ''labels.cache'')
                  \<lparr> sizes := (sizes (rc_fs (cache_labels fs0 imgs0 labs0 ''labels.cache'')))(''labels/b.txt'' \<mapsto> 0) \<rparr>)
               imgs0 labs0 ''labels.cache''
     = Inr \<lparr> rc_cache = rc_cache (cache_labels fs0 imgs0 labs0 ''labels.cache''),
             rc_fs = rc_fs (cache_labels fs0 imgs0 labs0 ''labels.cache'')
                       \<lparr> sizes := (sizes (rc_fs (cache_labels fs0 imgs0 labs0 ''labels.cache'')))(''labels/b.txt'' \<mapsto> 0) \<rparr>,
             rc_warnings = [], rc_scanned = False \<rparr>"
proof -
  let ?r = "cache_labels fs0 imgs0 labs0 ''labels.cache''"
  have s0: "sizes fs0 ''labels/b.txt'' = None"
    by (simp add: fs0_def)
  have 1: "sizes (rc_fs ?r) ''labels/b.txt'' = None"
    using s0 by (simp only: cache_labels_sizes)
  have 2: "cache_file (rc_fs ?r) ''labels.cache'' = Some (Pickled (rc_cache ?r))"
    by (rule cache_labels_file)
  have h: "get_hash (rc_fs ?r) (labs0 @ imgs0) = get_hash fs0 (labs0 @ imgs0)"
    by (rule get_hash_cong) (rule cache_labels_sizes)
  have 3: "rc_cache ?r ''hash'' = Some (Hash (get_hash (rc_fs ?r) (labs0 @ imgs0)))"
    using cache_labels_hash[of fs0 imgs0 labs0 "''labels.cache''"] by (simp only: h)
  note t = empty_label_file_keeps_cache_valid[OF 1 2 3, of "labs0 @ imgs0"]
  show ?thesis using t by blast
qed

text \<open>
  Claim C9.  On the three images of \<open>fs0\<close> the scan stores \<open>None\<close> for the image that cannot be
  opened, warns about it and goes on to the image after it; construction then stops with
  \<open>TypeError\<close> in the unpacking of the cache entries instead of keeping the sample with no
  labels.
\<close>

theorem scan_failure_aborts_construction:
  "rc_cache (cache_labels fs0 imgs0 labs0 ''labels.cache'') ''images/b.jpg'' = Some Null
   \<and> rc_warnings (cache_labels fs0 imgs0 labs0 ''labels.cache'') = [''images/b.jpg'']
   \<and> rc_cache (cache_labels fs0 imgs0 labs0 ''labels.cache'') ''images/c.jpg'' = Some (Entry [] (320, 240))
   \<and> dataset_init fs0 cfg0 imgs0 labs0 ''labels.cache'' = Inl TypeError"
  by (simp add: Let_def dataset_init_def get_cache_def get_labels_shapes_def cache_labels_def
      fs0_def imgs0_def labs0_def scan_one_def isfile_def)

section \<open>Label checks\<close>

lemma check_label_ok:
  assumes "l \<noteq> [] \<longrightarrow> five_columns l \<and> non_negative l \<and> normalized l"
  shows "check_label sc file l c =
           Inr (if sc \<and> l \<noteq> [] then zero_class l else l,
                c\<lparr> nd := nd c + (if l \<noteq> [] \<and> has_duplicates l then 1 else 0),
                   nf := nf c + (if l \<noteq> [] then 1 else 0),
                   ne := ne c + (if l = [] then 1 else 0) \<rparr>)"
  using assms by (simp add: check_label_def Let_def)

lemma check_label_bad:
  assumes "l \<noteq> []" and "\<not> (five_columns l \<and> non_negative l \<and> normalized l)"
  shows "\<exists>msg. check_label sc file l c = Inl (AssertionError msg)"
  using assms by (auto simp: check_label_def)

lemma check_labels_ok:
  assumes "length files = length ls"
    and "\<forall>l\<in>set ls. l \<noteq> [] \<longrightarrow> five_columns l \<and> non_negative l \<and> normalized l"
  shows "check_labels sc files ls c =
           Inr (map (\<lambda>l. if sc \<and> l \<noteq> [] then zero_class l else l) ls,
                c\<lparr> nd := nd c + length (filter (\<lambda>l. l \<noteq> [] \<and> has_duplicates l) ls),
                   nf := nf c + length (filter (\<lambda>l. l \<noteq> []) ls),
                   ne := ne c + length (filter (\<lambda>l. l = []) ls) \<rparr>)"
  using assms
proof (induction files ls arbitrary: c rule: list_induct2)
  case Nil
  then show ?case by simp
next
  case (Cons f fs l ls)
  have 1: "l \<noteq> [] \<longrightarrow> five_columns l \<and> non_negative l \<and> normalized l"
    using Cons.prems by simp
  have 2: "\<forall>l\<in>set ls. l \<noteq> [] \<longrightarrow> five_columns l \<and> non_negative l \<and> normalized l"
    using Cons.prems by simp
  show ?case
    by (simp add: check_label_ok[OF 1] Cons.IH[OF 2])
qed

lemma check_labels_bad:
  assumes "length files = length ls"
    and "\<exists>l\<in>set ls. l \<noteq> [] \<and> \<not> (five_columns l \<and> non_negative l \<and> normalized l)"
  shows "\<exists>msg. check_labels sc files ls c = Inl (AssertionError msg)"
  using assms
proof (induction files ls arbitrary: c rule: list_induct2)
  case Nil
  then show ?case by simp
next
  case (Cons f fs l ls)
  show ?case
  proof (cases "l \<noteq> [] \<and> \<not> (five_columns l \<and> non_negative l \<and> normalized l)")
    case True
    then obtain msg where "check_label sc f l c = Inl (AssertionError msg)"
      using check_label_bad by blast
    then show ?thesis by simp
  next
    case False
    then have ok: "l \<noteq> [] \<longrightarrow> five_columns l \<and> non_negative l \<and> normalized l" by blast
    from False Cons.prems
    have rest: "\<exists>l\<in>set ls. l \<noteq> [] \<and> \<not> (five_columns l \<and> non_negative l \<and> normalized l)"
      by auto
    have m: "\<And>c. \<exists>msg. check_labels sc fs ls c = Inl (AssertionError msg)"
      using Cons.IH[OF rest] by blast
    obtain l1 c1 where s1: "check_label sc f l c = Inr (l1, c1)"
      using check_label_ok[OF ok] by blast
    obtain msg where "check_labels sc fs ls c1 = Inl (AssertionError msg)"
      using m by blast
    then show ?thesis by (simp add: s1)
  qed
qed

lemma set_argsort: "set (argsort ar) = {0..<length ar}"
  by (simp add: argsort_def)

lemma length_argsort: "length (argsort ar) = length ar"
  by (simp add: argsort_def)

lemma length_take_idx: "length (take_idx xs irect) = length irect"
  by (simp add: take_idx_def)

lemma set_take_idx_argsort:
  assumes "length xs = length ar"
  shows "set (take_idx xs (argsort ar)) = set xs"
proof -
  have "set (take_idx xs (argsort ar)) = (\<lambda>i. xs ! i) ` {0..<length ar}"
    by (simp add: take_idx_def set_argsort)
  also have "\<dots> = set xs"
    using assms by (metis map_nth list.set_map set_upt)
  finally show ?thesis .
qed

lemma lookup_all_length: "lookup_all c xs = Inr vs \<Longrightarrow> length vs = length xs"
  by (induction xs arbitrary: vs) (auto split: option.splits sum.splits)

lemma unzip_entries_length:
  "unzip_entries vs = Inr (ls, ss) \<Longrightarrow> length ls = length vs \<and> length ss = length vs"
  by (induction vs arbitrary: ls ss rule: unzip_entries.induct) (auto split: sum.splits)

lemma get_labels_shapes_length:
  "get_labels_shapes c xs = Inr (ls, ss) \<Longrightarrow> length ls = length xs \<and> length ss = length xs"
  using lookup_all_length[of c xs] unzip_entries_length[of _ ls ss]
  by (fastforce simp: get_labels_shapes_def split: sum.splits if_splits)

lemma dataset_init_labels_valid:
  assumes "dataset_init w cfg img_files label_files cache_path = Inr ds"
    and "length label_files = length img_files"
  shows "\<exists>r labels shapes.
           get_cache w img_files label_files cache_path = Inr r
         \<and> get_labels_shapes (rc_cache r) img_files = Inr (labels, shapes)
         \<and> (\<forall>l\<in>set labels. l \<noteq> [] \<longrightarrow> five_columns l \<and> non_negative l \<and> normalized l)"
proof -
  from assms(1) obtain r where r: "get_cache w img_files label_files cache_path = Inr r"
    by (auto simp: dataset_init_def split: if_splits sum.splits)
  from assms(1) r obtain labels shapes
    where ls: "get_labels_shapes (rc_cache r) img_files = Inr (labels, shapes)"
    by (auto simp: dataset_init_def split: if_splits sum.splits)
  have len: "length labels = length img_files" "length shapes = length img_files"
    using get_labels_shapes_length[OF ls] by simp_all
  define rect1 where "rect1 = (if image_weights cfg then False else rect cfg)"
  define irect where "irect = argsort (aspect_ratios shapes)"
  define label_files1 where "label_files1 = (if rect1 then take_idx label_files irect else label_files)"
  define labels1 where "labels1 = (if rect1 then take_idx labels irect else labels)"
  from assms(1) r ls obtain res
    where ck: "check_labels (single_cls cfg) label_files1 labels1
                 \<lparr> nm = 0, nf = 0, ne = 0, ns = 0, nd = 0 \<rparr> = Inr res"
    unfolding dataset_init_def Let_def rect1_def irect_def label_files1_def labels1_def
    by (auto split: if_splits sum.splits prod.splits)
  have l1: "length label_files1 = length labels1"
    by (simp add: label_files1_def labels1_def length_take_idx assms(2) len)
  have "length (aspect_ratios shapes) = length labels"
    by (simp add: aspect_ratios_def len)
  then have s1: "set labels1 = set labels"
    by (simp add: labels1_def irect_def set_take_idx_argsort)
  have "\<not> (\<exists>l\<in>set labels1. l \<noteq> [] \<and> \<not> (five_columns l \<and> non_negative l \<and> normalized l))"
    using check_labels_bad[OF l1, of "single_cls cfg" "\<lparr> nm = 0, nf = 0, ne = 0, ns = 0, nd = 0 \<rparr>"] ck
    by auto
  then have "\<forall>l\<in>set labels. l \<noteq> [] \<longrightarrow> five_columns l \<and> non_negative l \<and> normalized l"
    using s1 by blast
  then show ?thesis using r ls by blast
qed

text \<open>
  Claim C7.  The loop over the label arrays succeeds exactly when every non-empty array has
  five columns, no negative value, and no value above 1 in the columns after the first;
  otherwise it stops with an \<open>AssertionError\<close>, and construction returns only if every
  non-empty array of the cache entries in use passes the three checks.  On success the arrays
  come back with every row in place (the first column zeroed under \<open>single_cls\<close>), \<open>nd\<close> has
  grown by the number of non-empty arrays with a repeated row, \<open>nf\<close> by the number of non-empty
  arrays and \<open>ne\<close> by the number of empty ones.
\<close>

theorem label_checks_fatal_duplicates_kept:
  assumes "length files = length ls"
  shows "(if \<forall>l\<in>set ls. l \<noteq> [] \<longrightarrow> five_columns l \<and> non_negative l \<and> normalized l
          then check_labels sc files ls c =
                 Inr (map (\<lambda>l. if sc \<and> l \<noteq> [] then zero_class l else l) ls,
                      c\<lparr> nd := nd c + length (filter (\<lambda>l. l \<noteq> [] \<and> has_duplicates l) ls),
                         nf := nf c + length (filter (\<lambda>l. l \<noteq> []) ls),
                         ne := ne c + length (filter (\<lambda>l. l = []) ls) \<rparr>)
          else \<exists>msg. check_labels sc files ls c = Inl (AssertionError msg))
       \<and> (length label_files = length img_files
            \<longrightarrow> dataset_init w cfg img_files label_files cache_path = Inr ds
            \<longrightarrow> (\<exists>r labels shapes.
                   get_cache w img_files label_files cache_path = Inr r
                 \<and> get_labels_shapes (rc_cache r) img_files = Inr (labels, shapes)
                 \<and> (\<forall>l\<in>set labels. l \<noteq> [] \<longrightarrow> five_columns l \<and> non_negative l \<and> normalized l)))"
proof -
  have a: "(if \<forall>l\<in>set ls. l \<noteq> [] \<longrightarrow> five_columns l \<and> non_negative l \<and> normalized l
          then check_labels sc files ls c =
                 Inr (map (\<lambda>l. if sc \<and> l \<noteq> [] then zero_class l else l) ls,
                      c\<lparr> nd := nd c + length (filter (\<lambda>l. l \<noteq> [] \<and> has_duplicates l) ls),
                         nf := nf c + length (filter (\<lambda>l. l \<noteq> []) ls),
                         ne := ne c + length (filter (\<lambda>l. l = []) ls) \<rparr>)
          else \<exists>msg. check_labels sc files ls c = Inl (AssertionError msg))"
  proof (cases "\<forall>l\<in>set ls. l \<noteq> [] \<longrightarrow> five_columns l \<and> non_negative l \<and> normalized l")
    case True
    show ?thesis using check_labels_ok[OF assms True, of sc c] True by presburger
  next
    case False
    then have "\<exists>l\<in>set ls. l \<noteq> [] \<and> \<not> (five_columns l \<and> non_negative l \<and> normalized l)"
      by blast
    from check_labels_bad[OF assms this, of sc c] False show ?thesis by presburger
  qed
  show ?thesis using a dataset_init_labels_valid by blast
qed

theorem label_checks_fatal_duplicates_kept_witness:
  "check_labels False labs0 labels_dup counters0
     = Inr (labels_dup, counters0\<lparr> nd := 1, nf := 2, ne := 1 \<rparr>)
   \<and> (\<exists>msg. check_labels False [''labels/a.txt''] [[[0, 3 / 2, 1 / 2, 1 / 5, 1 / 5]]] counters0
            = Inl (AssertionError msg))
   \<and> (\<exists>r labels shapes.
         get_cache fs1 imgs0 labs0 ''labels.cache'' = Inr r
       \<and> get_labels_shapes (rc_cache r) imgs0 = Inr (labels, shapes)
       \<and> (\<forall>l\<in>set labels. l \<noteq> [] \<longrightarrow> five_columns l \<and> non_negative l \<and> normalized l))"
proof -
  have len1: "length labs0 = length labels_dup"
    by (simp add: labs0_def labels_dup_def)
  have ok: "\<forall>l\<in>set labels_dup. l \<noteq> [] \<longrightarrow> five_columns l \<and> non_negative l \<and> normalized l"
    by (simp add: labels_dup_def five_columns_def non_negative_def normalized_def)
  have ev: "map (\<lambda>l. if False \<and> l \<noteq> [] then zero_class l else l) labels_dup = labels_dup"
    by simp
  have cnt: "counters0\<lparr> nd := nd counters0 + length (filter (\<lambda>l. l \<noteq> [] \<and> has_duplicates l) labels_dup),
                         nf := nf counters0 + length (filter (\<lambda>l. l \<noteq> []) labels_dup),
                         ne := ne counters0 + length (filter (\<lambda>l. l = []) labels_dup) \<rparr>
             = counters0\<lparr> nd := 1, nf := 2, ne := 1 \<rparr>"
    by (simp add: counters0_def labels_dup_def has_duplicates_def)
  have a: "check_labels False labs0 labels_dup counters0
             = Inr (labels_dup, counters0\<lparr> nd := 1, nf := 2, ne := 1 \<rparr>)"
    using label_checks_fatal_duplicates_kept[OF len1, where sc = False and c = counters0] ok ev cnt
    by presburger
  have len2: "length [''labels/a.txt''] = length [[[0, 3 / 2, 1 / 2, 1 / 5, 1 / 5 :: real]]]"
    by simp
  have bad: "\<not> (\<forall>l\<in>set [[[0, 3 / 2, 1 / 2, 1 / 5, 1 / 5 :: real]]].
                 l \<noteq> [] \<longrightarrow> five_columns l \<and> non_negative l \<and> normalized l)"
    by (simp add: normalized_def)
  have b: "\<exists>msg. check_labels False [''labels/a.txt''] [[[0, 3 / 2, 1 / 2, 1 / 5, 1 / 5]]] counters0
            = Inl (AssertionError msg)"
    using label_checks_fatal_duplicates_kept[OF len2, where sc = False and c = counters0] bad
    by presburger
  have len3: "length labs0 = length imgs0"
    by (simp add: labs0_def imgs0_def)
  have "\<exists>ds. dataset_init fs1 cfg0 imgs0 labs0 ''labels.cache'' = Inr ds"
    by (simp add: Let_def dataset_init_def get_cache_def get_labels_shapes_def cache_labels_def
        fs1_def fs0_def imgs0_def labs0_def cfg0_def scan_one_def isfile_def check_label_def
        five_columns_def non_negative_def normalized_def has_duplicates_def)
  then obtain ds where ds: "dataset_init fs1 cfg0 imgs0 labs0 ''labels.cache'' = Inr ds" ..
  have c: "\<exists>r labels shapes.
         get_cache fs1 imgs0 labs0 ''labels.cache'' = Inr r
       \<and> get_labels_shapes (rc_cache r) imgs0 = Inr (labels, shapes)
       \<and> (\<forall>l\<in>set labels. l \<noteq> [] \<longrightarrow> five_columns l \<and> non_negative l \<and> normalized l)"
    using label_checks_fatal_duplicates_kept[OF len1, where label_files = labs0 and img_files = imgs0
        and w = fs1 and cfg = cfg0 and cache_path = "''labels.cache''" and ds = ds] len3 ds
    by blast
  show ?thesis using a b c by blast
qed

section \<open>Rectangular batch shapes\<close>

lemma take_idx_argsort: "take_idx ar (argsort ar) = sort ar"
proof -
  let ?f = "\<lambda>i. ar ! i"
  let ?ys = "map ?f (sort_key ?f [0..<length ar])"
  have "mset ?ys = mset (map ?f [0..<length ar])"
    by simp
  then have m: "mset ?ys = mset ar"
    by (simp add: map_nth)
  have s: "sorted ?ys"
    by (rule sorted_sort_key)
  have "sort ar = ?ys"
    using m s by (rule properties_for_sort)
  then show ?thesis
    by (simp add: take_idx_def argsort_def)
qed

lemma scenario_sorted:
  assumes "mset ar = {#1 / 2, 1, 2 :: real#}"
  shows "sort ar = [1 / 2, 1, 2]"
proof (rule properties_for_sort)
  show "mset [1 / 2, 1, 2 :: real] = mset ar" using assms by simp
  show "sorted [1 / 2, 1, 2 :: real]" by simp
qed

lemma batch_index_small:
  assumes "3 \<le> bs"
  shows "batch_index 3 bs = [0, 0, 0]"
  using assms by (simp add: batch_index_def upt_conv_Cons)

text \<open>
  Claim C4, as stated, fails: three images of aspect ratios 0.5, 1 and 2 in one batch, with
  \<open>img_size = 640\<close>, \<open>stride = 32\<close> and \<open>pad = 0\<close>, get the batch shape \<open>(640, 640)\<close>, which is the
  square default.
\<close>

theorem mixed_batch_shape_counterexample:
  "batch_shapes_of [(200, 100), (100, 100), (100, 200)] 3 640 32 0 = Inr [(640, 640)]
   \<and> square_default 640 32 = (640, 640)"
  by (simp add: Let_def batch_shapes_of_def batch_index_def num_batches_def aspect_ratios_def
      argsort_def take_idx_def batch_members_def rect_shape_def round_up_shape_def
      square_default_def upt_conv_Cons)

text \<open>
  Claim C4, amended.  Three images whose aspect ratios are 0.5, 1 and 2, in any order, in one
  batch: the largest ratio is not below 1 and the smallest not above 1, so the batch keeps
  the shape \<open>[1, 1]\<close> and its batch shape is \<open>ceil(img_size / stride + pad) * stride\<close> in both
  dimensions; with \<open>pad = 0\<close> that is the square default.
\<close>

theorem mixed_batch_shape_is_square:
  assumes "length s = 3" and "3 \<le> bs" and "mset (aspect_ratios s) = {#1 / 2, 1, 2#}"
  shows "batch_shapes_of s bs isz st pd =
           Inr [(\<lceil>real_of_int isz / real_of_int st + pd\<rceil> * st, \<lceil>real_of_int isz / real_of_int st + pd\<rceil> * st)]
         \<and> batch_shapes_of s bs isz st 0 = Inr [square_default isz st]"
proof -
  have ar: "take_idx (aspect_ratios s) (argsort (aspect_ratios s)) = [1 / 2, 1, 2]"
    using scenario_sorted[OF assms(3)] by (simp add: take_idx_argsort)
  have bi: "batch_index 3 bs = [0, 0, 0]" using batch_index_small[OF assms(2)] .
  have gen: "batch_shapes_of s bs isz st p =
           Inr [(\<lceil>real_of_int isz / real_of_int st + p\<rceil> * st, \<lceil>real_of_int isz / real_of_int st + p\<rceil> * st)]" for p
    by (simp add: batch_shapes_of_def Let_def assms(1) ar bi num_batches_def batch_members_def
        rect_shape_def round_up_shape_def)
  show ?thesis using gen[of pd] gen[of 0] by (simp add: square_default_def)
qed

theorem mixed_batch_shape_is_square_witness:
  "batch_shapes_of [(100, 200), (200, 100), (100, 100)] 4 640 32 (1 / 2) = Inr [(672, 672)]
   \<and> batch_shapes_of [(100, 200), (200, 100), (100, 100)] 4 640 32 0 = Inr [square_default 640 32]"
proof -
  have 1: "length [(100::nat, 200::nat), (200, 100), (100, 100)] = 3" by simp
  have 2: "(3::nat) \<le> 4" by simp
  have 3: "mset (aspect_ratios [(100, 200), (200, 100), (100, 100)]) = {#1 / 2, 1, 2#}"
    by (simp add: aspect_ratios_def)
  show ?thesis using mixed_batch_shape_is_square[OF 1 2 3, of 640 32 "1 / 2"] by simp
qed

section \<open>Letterbox\<close>












section \<open>Cutout\<close>



















lemma scales_last: "scales ! 30 = 1 / 32"
  by (simp add: scales_def nth_append)





section \<open>Perspective transform at the identity\<close>









text \<open>
  With a sum that returns a value of 1 or more as it is, a box passes \<open>box_candidates\<close>
  against itself exactly if it is more than 2 wide and high and neither side reaches 20
  times the other.
\<close>

lemma box_candidates_self:
  assumes "\<forall>x\<ge>1. fadd x = x"
  shows "box_candidates fadd (x1, y1, x2, y2) (x1, y1, x2, y2) 2 20 (2 / 10)
         \<longleftrightarrow> x2 - x1 > 2 \<and> y2 - y1 > 2
             \<and> x2 - x1 < 20 * (y2 - y1) \<and> y2 - y1 < 20 * (x2 - x1)"
proof (cases "x2 - x1 > 2 \<and> y2 - y1 > 2")
  case False
  then show ?thesis by (auto simp: box_candidates_def Let_def)
next
  case True
  define w where "w = x2 - x1"
  define h where "h = y2 - y1"
  have wh: "2 < w" "2 < h" using True by (simp_all add: w_def h_def)
  have "1 * 1 \<le> w * h" using wh by (intro mult_mono) simp_all
  then have a: "fadd (w * h) = w * h" "fadd w = w" "fadd h = h"
    using assms wh by simp_all
  have r: "w * h / (w * h) = 1" using wh by simp
  have d1: "w / h < 20 \<longleftrightarrow> w < 20 * h" using wh by (simp add: pos_divide_less_eq)
  have d2: "h / w < 20 \<longleftrightarrow> h < 20 * w" using wh by (simp add: pos_divide_less_eq)
  have "box_candidates fadd (x1, y1, x2, y2) (x1, y1, x2, y2) 2 20 (2 / 10)
        \<longleftrightarrow> w > 2 \<and> h > 2 \<and> w * h / fadd (w * h) > 2 / 10 \<and> max (w / fadd h) (h / fadd w) < 20"
    by (simp add: box_candidates_def Let_def w_def h_def)
  also have "\<dots> \<longleftrightarrow> w > 2 \<and> h > 2 \<and> w < 20 * h \<and> h < 20 * w"
    unfolding a r using d1 d2 by auto
  finally show ?thesis by (simp add: w_def h_def)
qed




section \<open>Mosaic\<close>

lemma slice_bound_inside: "0 \<le> a \<Longrightarrow> a \<le> int n \<Longrightarrow> slice_bound n a = nat a"
  by (auto simp: slice_bound_def min_def)

lemma slice_bound_nonneg: "0 \<le> a \<Longrightarrow> slice_bound n a = nat (min a (int n))"
  by (auto simp: slice_bound_def min_def)

lemma paste_ok:
  assumes "0 \<le> x1a" "x1a \<le> x2a" "x2a \<le> int (width dst)"
    and "0 \<le> y1a" "y1a \<le> y2a" "y2a \<le> int (height dst)"
    and "0 \<le> x1b" "0 \<le> y1b" "0 \<le> x2b" "0 \<le> y2b"
    and "x2a - x1a = min x2b (int (width src)) - x1b"
    and "y2a - y1a = min y2b (int (height src)) - y1b"
    and "channels src = channels dst"
  shows "\<exists>dst1. paste dst (x1a, y1a, x2a, y2a) src (x1b, y1b, x2b, y2b) = Inr dst1
         \<and> height dst1 = height dst \<and> width dst1 = width dst \<and> channels dst1 = channels dst
         \<and> (\<forall>y x. pixel dst1 y x =
               (if y1a \<le> int y \<and> int y < y2a \<and> x1a \<le> int x \<and> int x < x2a
                then pixel src (nat (int y - y1a + y1b)) (nat (int x - x1a + x1b))
                else pixel dst y x))"
proof -
  have ya: "slice_bound (height dst) y1a = nat y1a" and ya2: "slice_bound (height dst) y2a = nat y2a"
    and xa: "slice_bound (width dst) x1a = nat x1a" and xa2: "slice_bound (width dst) x2a = nat x2a"
    using assms by (simp_all add: slice_bound_inside)
  have yb: "slice_bound (height src) y1b = nat y1b" and xb: "slice_bound (width src) x1b = nat x1b"
    using assms by (simp_all add: slice_bound_inside)
  have yb2: "slice_bound (height src) y2b = nat (min y2b (int (height src)))"
    and xb2: "slice_bound (width src) x2b = nat (min x2b (int (width src)))"
    using assms by (simp_all add: slice_bound_nonneg)
  have ey: "nat (min y2b (int (height src))) - nat y1b = nat y2a - nat y1a"
    using assms by linarith
  have ex: "nat (min x2b (int (width src))) - nat x1b = nat x2a - nat x1a"
    using assms by linarith
  let ?px = "\<lambda>y x. if nat y1a \<le> y \<and> y < nat y2a \<and> nat x1a \<le> x \<and> x < nat x2a
                then (let p = pixel src (if nat y2a - nat y1a = 1 then nat y1b else y - nat y1a + nat y1b)
                                        (if nat x2a - nat x1a = 1 then nat x1b else x - nat x1a + nat x1b)
                      in if channels src = channels dst then p else replicate (channels dst) (hd p))
                else pixel dst y x"
  have p: "paste dst (x1a, y1a, x2a, y2a) src (x1b, y1b, x2b, y2b) = Inr (dst\<lparr> pixel := ?px \<rparr>)"
    by (simp add: paste_def Let_def ya ya2 xa xa2 yb xb yb2 xb2 ey ex assms(13) cong: if_cong)
  have px: "?px y x = (if y1a \<le> int y \<and> int y < y2a \<and> x1a \<le> int x \<and> int x < x2a
                then pixel src (nat (int y - y1a + y1b)) (nat (int x - x1a + x1b))
                else pixel dst y x)" for y x
  proof -
    have eqv: "(nat y1a \<le> y \<and> y < nat y2a \<and> nat x1a \<le> x \<and> x < nat x2a)
               \<longleftrightarrow> (y1a \<le> int y \<and> int y < y2a \<and> x1a \<le> int x \<and> int x < x2a)"
      using assms(1,2,4,5) by linarith
    show ?thesis
    proof (cases "y1a \<le> int y \<and> int y < y2a \<and> x1a \<le> int x \<and> int x < x2a")
      case True
      have yy: "(if nat y2a - nat y1a = 1 then nat y1b else y - nat y1a + nat y1b) = nat (int y - y1a + y1b)"
        using True assms(4,8) by (auto simp: nat_add_distrib nat_diff_distrib)
      have xx: "(if nat x2a - nat x1a = 1 then nat x1b else x - nat x1a + nat x1b) = nat (int x - x1a + x1b)"
        using True assms(1,7) by (auto simp: nat_add_distrib nat_diff_distrib)
      show ?thesis
        unfolding eqv yy xx Let_def using True assms(13) by simp
    next
      case False
      show ?thesis
        unfolding eqv by (simp only: False if_False)
    qed
  qed
  show ?thesis
    by (rule exI[of _ "dst\<lparr> pixel := ?px \<rparr>"]) (simp only: p px, simp)
qed

lemma placement_fits:
  assumes "0 \<le> s" and "i < 4"
    and "placement i s s s (int w) (int h) = ((x1a, y1a, x2a, y2a), (x1b, y1b, x2b, y2b))"
  shows "0 \<le> x1a \<and> x1a \<le> x2a \<and> x2a \<le> 2 * s \<and> 0 \<le> y1a \<and> y1a \<le> y2a \<and> y2a \<le> 2 * s
       \<and> 0 \<le> x1b \<and> 0 \<le> y1b \<and> 0 \<le> x2b \<and> 0 \<le> y2b
       \<and> x2a - x1a = min x2b (int w) - x1b \<and> y2a - y1a = min y2b (int h) - y1b
       \<and> (if i = 0 \<or> i = 2 then x2a = s else x1a = s)
       \<and> (if i = 0 \<or> i = 1 then y2a = s else y1a = s)"
  using assms by (auto simp: placement_def Let_def split: if_splits)

lemma mosaic_step_ok:
  assumes s: "0 \<le> s" and i: "i < 4" and idx: "index < length imgs" and len: "length imgs = length labels"
    and cv: "if i = 0 then canvas = \<lparr> height = nat (s * 2), width = nat (s * 2),
                                       channels = channels (imgs ! index),
                                       pixel = (\<lambda>y x. replicate (channels (imgs ! index)) 114) \<rparr>
             else img4 = Some canvas \<and> height canvas = nat (s * 2) \<and> width canvas = nat (s * 2)
                  \<and> channels canvas = channels (imgs ! index)"
  shows "\<exists>canvas1. mosaic_step s imgs labels (img4, labels4) (i, index)
             = Inr (Some canvas1, labels4 @ [place_labels i s (imgs ! index) (labels ! index)])
         \<and> height canvas1 = nat (s * 2) \<and> width canvas1 = nat (s * 2)
         \<and> channels canvas1 = channels (imgs ! index)
         \<and> (\<forall>y x. pixel canvas1 y x =
               (if in_quad i s (imgs ! index) y x then quad_pixel i s (imgs ! index) y x
                else pixel canvas y x))"
proof -
  let ?img = "imgs ! index"
  obtain x1a y1a x2a y2a x1b y1b x2b y2b
    where pl: "placement i s s s (int (width ?img)) (int (height ?img))
                 = ((x1a, y1a, x2a, y2a), (x1b, y1b, x2b, y2b))"
    by (metis prod_cases4 surj_pair)
  note f = placement_fits[OF s i pl]
  have shape: "height canvas = nat (s * 2)" "width canvas = nat (s * 2)" "channels canvas = channels ?img"
    using cv by (auto split: if_splits)
  have cget: "(if i = 0 then full_canvas s (channels ?img)
               else (case img4 of None \<Rightarrow> Inl TypeError | Some c \<Rightarrow> Inr c)) = Inr canvas"
    using cv s by (auto simp: full_canvas_def split: if_splits)
  have b1: "x2a \<le> int (width canvas)" "y2a \<le> int (height canvas)"
    using f s shape by simp_all
  obtain canvas1 where p: "paste canvas (x1a, y1a, x2a, y2a) ?img (x1b, y1b, x2b, y2b) = Inr canvas1"
    and sh1: "height canvas1 = height canvas" "width canvas1 = width canvas" "channels canvas1 = channels canvas"
    and px: "\<forall>y x. pixel canvas1 y x =
               (if y1a \<le> int y \<and> int y < y2a \<and> x1a \<le> int x \<and> int x < x2a
                then pixel ?img (nat (int y - y1a + y1b)) (nat (int x - x1a + x1b))
                else pixel canvas y x)"
    using paste_ok[of x1a x2a canvas y1a y2a x1b y1b x2b y2b ?img] f b1 shape(3) by auto
  have st: "mosaic_step s imgs labels (img4, labels4) (i, index)
             = Inr (Some canvas1, labels4 @ [place_labels i s ?img (labels ! index)])"
    using idx len by (simp add: mosaic_step_def load_image_def Let_def cget pl p)
  have px2: "\<forall>y x. pixel canvas1 y x =
               (if in_quad i s ?img y x then quad_pixel i s ?img y x else pixel canvas y x)"
    using px by (simp add: in_quad_def quad_pixel_def pl)
  show ?thesis using st sh1 shape px2 by auto
qed

lemma mosaic_step_first:
  assumes "0 \<le> s" and "index < length imgs" and "length imgs = length labels"
  shows "\<exists>canvas1. mosaic_step s imgs labels (None, []) (0, index)
             = Inr (Some canvas1, [place_labels 0 s (imgs ! index) (labels ! index)])
         \<and> height canvas1 = nat (s * 2) \<and> width canvas1 = nat (s * 2)
         \<and> channels canvas1 = channels (imgs ! index)
         \<and> (\<forall>y x. pixel canvas1 y x =
               (if in_quad 0 s (imgs ! index) y x then quad_pixel 0 s (imgs ! index) y x
                else replicate (channels (imgs ! index)) 114))"
proof -
  let ?c0 = "\<lparr> height = nat (s * 2), width = nat (s * 2), channels = channels (imgs ! index),
                pixel = (\<lambda>y x. replicate (channels (imgs ! index)) 114) \<rparr>"
  have i: "(0::nat) < 4" by simp
  have cv: "if (0::nat) = 0 then ?c0 = ?c0
            else None = Some ?c0 \<and> height ?c0 = nat (s * 2) \<and> width ?c0 = nat (s * 2)
                 \<and> channels ?c0 = channels (imgs ! index)"
    by simp
  have e: "pixel ?c0 y x = replicate (channels (imgs ! index)) 114" for y x
    by simp
  note t = mosaic_step_ok[OF assms(1) i assms(2,3) cv, of "[]", unfolded e append_Nil]
  show ?thesis by (rule t)
qed

lemma mosaic_step_next:
  assumes "0 \<le> s" and "0 < i" and "i < 4" and "index < length imgs" and "length imgs = length labels"
    and "height canvas = nat (s * 2)" and "width canvas = nat (s * 2)"
    and "channels canvas = channels (imgs ! index)"
  shows "\<exists>canvas1. mosaic_step s imgs labels (Some canvas, labels4) (i, index)
             = Inr (Some canvas1, labels4 @ [place_labels i s (imgs ! index) (labels ! index)])
         \<and> height canvas1 = nat (s * 2) \<and> width canvas1 = nat (s * 2)
         \<and> channels canvas1 = channels (imgs ! index)
         \<and> (\<forall>y x. pixel canvas1 y x =
               (if in_quad i s (imgs ! index) y x then quad_pixel i s (imgs ! index) y x
                else pixel canvas y x))"
proof -
  have cv: "if i = 0 then canvas = \<lparr> height = nat (s * 2), width = nat (s * 2),
                                       channels = channels (imgs ! index),
                                       pixel = (\<lambda>y x. replicate (channels (imgs ! index)) 114) \<rparr>
             else Some canvas = Some canvas \<and> height canvas = nat (s * 2) \<and> width canvas = nat (s * 2)
                  \<and> channels canvas = channels (imgs ! index)"
    using assms(2,6,7,8) by simp
  show ?thesis by (rule mosaic_step_ok[OF assms(1,3,4,5) cv])
qed

lemma in_quad_side:
  assumes "0 \<le> s" and "i < 4" and "in_quad i s img y x"
  shows "((int x < s) = (i = 0 \<or> i = 2)) \<and> ((int y < s) = (i = 0 \<or> i = 1))"
proof -
  obtain x1a y1a x2a y2a x1b y1b x2b y2b
    where pl: "placement i s s s (int (width img)) (int (height img))
                 = ((x1a, y1a, x2a, y2a), (x1b, y1b, x2b, y2b))"
    by (metis prod_cases4 surj_pair)
  note f = placement_fits[OF assms(1,2) pl]
  have q: "y1a \<le> int y \<and> int y < y2a \<and> x1a \<le> int x \<and> int x < x2a"
    using assms(3) by (simp add: in_quad_def pl)
  show ?thesis using f q by (auto split: if_splits)
qed

lemma mosaic_loop4:
  assumes s: "0 \<le> s" and len: "length imgs = length labels"
    and j: "j0 < length imgs" "j1 < length imgs" "j2 < length imgs" "j3 < length imgs"
    and ch: "channels (imgs ! j1) = channels (imgs ! j0)" "channels (imgs ! j2) = channels (imgs ! j0)"
            "channels (imgs ! j3) = channels (imgs ! j0)"
  shows "\<exists>img4. mosaic_loop s imgs labels (None, []) [(0, j0), (1, j1), (2, j2), (3, j3)]
           = Inr (Some img4, [place_labels 0 s (imgs ! j0) (labels ! j0), place_labels 1 s (imgs ! j1) (labels ! j1),
                              place_labels 2 s (imgs ! j2) (labels ! j2), place_labels 3 s (imgs ! j3) (labels ! j3)])
         \<and> height img4 = nat (s * 2) \<and> width img4 = nat (s * 2) \<and> channels img4 = channels (imgs ! j0)
         \<and> (\<forall>y x. pixel img4 y x =
               (if in_quad 3 s (imgs ! j3) y x then quad_pixel 3 s (imgs ! j3) y x
                else if in_quad 2 s (imgs ! j2) y x then quad_pixel 2 s (imgs ! j2) y x
                else if in_quad 1 s (imgs ! j1) y x then quad_pixel 1 s (imgs ! j1) y x
                else if in_quad 0 s (imgs ! j0) y x then quad_pixel 0 s (imgs ! j0) y x
                else replicate (channels (imgs ! j0)) 114))"
proof -
  obtain c1 where st0: "mosaic_step s imgs labels (None, []) (0, j0)
             = Inr (Some c1, [place_labels 0 s (imgs ! j0) (labels ! j0)])"
    and sh1: "height c1 = nat (s * 2)" "width c1 = nat (s * 2)" "channels c1 = channels (imgs ! j0)"
    and px1: "\<forall>y x. pixel c1 y x =
               (if in_quad 0 s (imgs ! j0) y x then quad_pixel 0 s (imgs ! j0) y x
                else replicate (channels (imgs ! j0)) 114)"
    using mosaic_step_first[OF s j(1) len] by blast
  have k1: "(0::nat) < 1" "(1::nat) < 4" and k2: "(0::nat) < 2" "(2::nat) < 4"
    and k3: "(0::nat) < 3" "(3::nat) < 4" by simp_all
  have c1ch: "channels c1 = channels (imgs ! j1)" using sh1 ch by simp
  obtain c2 where st1: "mosaic_step s imgs labels (Some c1, [place_labels 0 s (imgs ! j0) (labels ! j0)]) (1, j1)
             = Inr (Some c2, [place_labels 0 s (imgs ! j0) (labels ! j0)] @ [place_labels 1 s (imgs ! j1) (labels ! j1)])"
    and sh2: "height c2 = nat (s * 2)" "width c2 = nat (s * 2)" "channels c2 = channels (imgs ! j1)"
    and px2: "\<forall>y x. pixel c2 y x =
               (if in_quad 1 s (imgs ! j1) y x then quad_pixel 1 s (imgs ! j1) y x else pixel c1 y x)"
    using mosaic_step_next[OF s k1 j(2) len sh1(1,2) c1ch] by blast
  have c2ch: "channels c2 = channels (imgs ! j2)" using sh2 ch by simp
  obtain c3 where st2: "mosaic_step s imgs labels
               (Some c2, [place_labels 0 s (imgs ! j0) (labels ! j0)] @ [place_labels 1 s (imgs ! j1) (labels ! j1)]) (2, j2)
             = Inr (Some c3, ([place_labels 0 s (imgs ! j0) (labels ! j0)] @ [place_labels 1 s (imgs ! j1) (labels ! j1)])
                              @ [place_labels 2 s (imgs ! j2) (labels ! j2)])"
    and sh3: "height c3 = nat (s * 2)" "width c3 = nat (s * 2)" "channels c3 = channels (imgs ! j2)"
    and px3: "\<forall>y x. pixel c3 y x =
               (if in_quad 2 s (imgs ! j2) y x then quad_pixel 2 s (imgs ! j2) y x else pixel c2 y x)"
    using mosaic_step_next[OF s k2 j(3) len sh2(1,2) c2ch] by blast
  have c3ch: "channels c3 = channels (imgs ! j3)" using sh3 ch by simp
  obtain c4 where st3: "mosaic_step s imgs labels
               (Some c3, ([place_labels 0 s (imgs ! j0) (labels ! j0)] @ [place_labels 1 s (imgs ! j1) (labels ! j1)])
                              @ [place_labels 2 s (imgs ! j2) (labels ! j2)]) (3, j3)
             = Inr (Some c4, (([place_labels 0 s (imgs ! j0) (labels ! j0)] @ [place_labels 1 s (imgs ! j1) (labels ! j1)])
                              @ [place_labels 2 s (imgs ! j2) (labels ! j2)])
                              @ [place_labels 3 s (imgs ! j3) (labels ! j3)])"
    and sh4: "height c4 = nat (s * 2)" "width c4 = nat (s * 2)" "channels c4 = channels (imgs ! j3)"
    and px4: "\<forall>y x. pixel c4 y x =
               (if in_quad 3 s (imgs ! j3) y x then quad_pixel 3 s (imgs ! j3) y x else pixel c3 y x)"
    using mosaic_step_next[OF s k3 j(4) len sh3(1,2) c3ch] by blast
  have lp: "mosaic_loop s imgs labels (None, []) [(0, j0), (1, j1), (2, j2), (3, j3)]
           = Inr (Some c4, [place_labels 0 s (imgs ! j0) (labels ! j0), place_labels 1 s (imgs ! j1) (labels ! j1),
                              place_labels 2 s (imgs ! j2) (labels ! j2), place_labels 3 s (imgs ! j3) (labels ! j3)])"
    using st0 st1 st2 st3 by simp
  have px: "\<forall>y x. pixel c4 y x =
               (if in_quad 3 s (imgs ! j3) y x then quad_pixel 3 s (imgs ! j3) y x
                else if in_quad 2 s (imgs ! j2) y x then quad_pixel 2 s (imgs ! j2) y x
                else if in_quad 1 s (imgs ! j1) y x then quad_pixel 1 s (imgs ! j1) y x
                else if in_quad 0 s (imgs ! j0) y x then quad_pixel 0 s (imgs ! j0) y x
                else replicate (channels (imgs ! j0)) 114)"
    using px1 px2 px3 px4 by simp
  have ch4: "channels c4 = channels (imgs ! j0)" using sh4(3) ch(3) by simp
  show ?thesis
    by (rule exI[of _ c4], intro conjI) (fact lp sh4(1) sh4(2) ch4 px)+
qed

lemma mosaic_indices_ok:
  assumes "0 < n"
  shows "mosaic_indices n index k1 k2 k3 = Inr [index, k1 mod n, k2 mod n, k3 mod n]"
proof -
  have r: "randint 0 (int n - 1) k = Inr (int (k mod n))" for k
    using assms by (simp add: randint_def)
  show ?thesis by (simp add: mosaic_indices_def r)
qed

lemma mosaic_compose_ok:
  assumes s: "0 \<le> ld_img_size self"
    and idx: "index < length (ld_imgs self)"
    and len: "length (ld_imgs self) = length (ld_labels self)"
    and ch: "\<forall>img\<in>set (ld_imgs self). channels img = c"
  shows "\<exists>img4. mosaic_compose self index k1 k2 k3
           = Inr (img4, map (clip_row (ld_img_size self))
                          (concat [place_labels 0 (ld_img_size self) (ld_imgs self ! index) (ld_labels self ! index),
                                   place_labels 1 (ld_img_size self) (ld_imgs self ! (k1 mod length (ld_labels self)))
                                     (ld_labels self ! (k1 mod length (ld_labels self))),
                                   place_labels 2 (ld_img_size self) (ld_imgs self ! (k2 mod length (ld_labels self)))
                                     (ld_labels self ! (k2 mod length (ld_labels self))),
                                   place_labels 3 (ld_img_size self) (ld_imgs self ! (k3 mod length (ld_labels self)))
                                     (ld_labels self ! (k3 mod length (ld_labels self)))]))
         \<and> height img4 = nat (ld_img_size self * 2) \<and> width img4 = nat (ld_img_size self * 2)
         \<and> channels img4 = c
         \<and> (\<forall>y x. pixel img4 y x =
               (if in_quad 3 (ld_img_size self) (ld_imgs self ! (k3 mod length (ld_labels self))) y x
                then quad_pixel 3 (ld_img_size self) (ld_imgs self ! (k3 mod length (ld_labels self))) y x
                else if in_quad 2 (ld_img_size self) (ld_imgs self ! (k2 mod length (ld_labels self))) y x
                then quad_pixel 2 (ld_img_size self) (ld_imgs self ! (k2 mod length (ld_labels self))) y x
                else if in_quad 1 (ld_img_size self) (ld_imgs self ! (k1 mod length (ld_labels self))) y x
                then quad_pixel 1 (ld_img_size self) (ld_imgs self ! (k1 mod length (ld_labels self))) y x
                else if in_quad 0 (ld_img_size self) (ld_imgs self ! index) y x
                then quad_pixel 0 (ld_img_size self) (ld_imgs self ! index) y x
                else replicate c 114))"
proof -
  let ?n = "length (ld_labels self)"
  let ?s = "ld_img_size self"
  let ?imgs = "ld_imgs self"
  let ?labels = "ld_labels self"
  have n: "0 < ?n" using idx len by auto
  have j: "index < length ?imgs" "k1 mod ?n < length ?imgs" "k2 mod ?n < length ?imgs" "k3 mod ?n < length ?imgs"
    using idx n len by simp_all
  have c: "channels (?imgs ! j) = c" if "j < length ?imgs" for j
    using ch that by simp
  have chs: "channels (?imgs ! (k1 mod ?n)) = channels (?imgs ! index)"
    "channels (?imgs ! (k2 mod ?n)) = channels (?imgs ! index)"
    "channels (?imgs ! (k3 mod ?n)) = channels (?imgs ! index)"
    using c j by simp_all
  obtain img4 where lp: "mosaic_loop ?s ?imgs ?labels (None, [])
             [(0, index), (1, k1 mod ?n), (2, k2 mod ?n), (3, k3 mod ?n)]
           = Inr (Some img4, [place_labels 0 ?s (?imgs ! index) (?labels ! index),
                              place_labels 1 ?s (?imgs ! (k1 mod ?n)) (?labels ! (k1 mod ?n)),
                              place_labels 2 ?s (?imgs ! (k2 mod ?n)) (?labels ! (k2 mod ?n)),
                              place_labels 3 ?s (?imgs ! (k3 mod ?n)) (?labels ! (k3 mod ?n))])"
    and sh: "height img4 = nat (?s * 2)" "width img4 = nat (?s * 2)" "channels img4 = channels (?imgs ! index)"
    and px: "\<forall>y x. pixel img4 y x =
               (if in_quad 3 ?s (?imgs ! (k3 mod ?n)) y x then quad_pixel 3 ?s (?imgs ! (k3 mod ?n)) y x
                else if in_quad 2 ?s (?imgs ! (k2 mod ?n)) y x then quad_pixel 2 ?s (?imgs ! (k2 mod ?n)) y x
                else if in_quad 1 ?s (?imgs ! (k1 mod ?n)) y x then quad_pixel 1 ?s (?imgs ! (k1 mod ?n)) y x
                else if in_quad 0 ?s (?imgs ! index) y x then quad_pixel 0 ?s (?imgs ! index) y x
                else replicate (channels (?imgs ! index)) 114)"
    using mosaic_loop4[OF s len j chs] by blast
  have c0: "channels (?imgs ! index) = c" using c j(1) by simp
  have mc: "mosaic_compose self index k1 k2 k3
           = Inr (img4, map (clip_row ?s)
                          (concat [place_labels 0 ?s (?imgs ! index) (?labels ! index),
                              place_labels 1 ?s (?imgs ! (k1 mod ?n)) (?labels ! (k1 mod ?n)),
                              place_labels 2 ?s (?imgs ! (k2 mod ?n)) (?labels ! (k2 mod ?n)),
                              place_labels 3 ?s (?imgs ! (k3 mod ?n)) (?labels ! (k3 mod ?n))]))"
  proof -
    have zz: "zip [0, 1, 2, 3] [index, k1 mod ?n, k2 mod ?n, k3 mod ?n]
                = [(0, index), (1, k1 mod ?n), (2, k2 mod ?n), (3, k3 mod ?n)]"
      by simp
    show ?thesis
      by (simp only: mosaic_compose_def Let_def mosaic_indices_ok[OF n] sum.case zz lp prod.case option.case)
  qed
  have ch4: "channels img4 = c" using sh(3) c0 by simp
  have px': "\<forall>y x. pixel img4 y x =
               (if in_quad 3 ?s (?imgs ! (k3 mod ?n)) y x then quad_pixel 3 ?s (?imgs ! (k3 mod ?n)) y x
                else if in_quad 2 ?s (?imgs ! (k2 mod ?n)) y x then quad_pixel 2 ?s (?imgs ! (k2 mod ?n)) y x
                else if in_quad 1 ?s (?imgs ! (k1 mod ?n)) y x then quad_pixel 1 ?s (?imgs ! (k1 mod ?n)) y x
                else if in_quad 0 ?s (?imgs ! index) y x then quad_pixel 0 ?s (?imgs ! index) y x
                else replicate c 114)"
    using px unfolding c0 .
  show ?thesis
    by (rule exI[of _ img4], intro conjI) (fact mc sh(1) sh(2) ch4 px')+
qed

lemma placement_pad:
  assumes "0 \<le> s" and "i < 4"
    and "placement i s s s (int w) (int h) = ((x1a, y1a, x2a, y2a), (x1b, y1b, x2b, y2b))"
  shows "x1a = max (x1a - x1b) 0 \<and> x2a = min (x1a - x1b + int w) (2 * s)
       \<and> y1a = max (y1a - y1b) 0 \<and> y2a = min (y1a - y1b + int h) (2 * s)"
  using assms by (auto simp: placement_def Let_def split: if_splits)

lemma clip_between:
  fixes p a b w2 :: int and v :: real
  assumes "a = max p 0" and "b = min (p + w2) (2 * s)" and "a \<le> b"
    and "0 \<le> v" and "v \<le> real_of_int w2"
  shows "real_of_int a \<le> clip 0 (real_of_int (2 * s)) (v + real_of_int p)
       \<and> clip 0 (real_of_int (2 * s)) (v + real_of_int p) \<le> real_of_int b"
proof -
  have a: "real_of_int a = max (real_of_int p) 0"
    using assms(1) by (simp add: max_def)
  have b: "real_of_int b = min (real_of_int p + real_of_int w2) (2 * real_of_int s)"
    using assms(2) by (simp add: min_def)
  have i1: "0 \<le> p + w2" "p \<le> 2 * s" "0 \<le> 2 * s"
    using assms(1,2,3) by linarith+
  have r1: "0 \<le> real_of_int p + real_of_int w2" "real_of_int p \<le> 2 * real_of_int s"
    "0 \<le> 2 * real_of_int s"
    using i1 by (simp_all flip: of_int_add)
  show ?thesis
    unfolding a b clip_def using assms(4,5) r1 by (auto simp: min_def max_def)
qed

lemma placed_row_inside:
  assumes s: "0 \<le> s" and i: "i < 4" and l: "length r = 5"
    and u: "0 \<le> r ! 3" "0 \<le> r ! 4"
      "0 \<le> r ! 1 - r ! 3 / 2" "r ! 1 + r ! 3 / 2 \<le> 1" "0 \<le> r ! 2 - r ! 4 / 2" "r ! 2 + r ! 4 / 2 \<le> 1"
    and pl: "placement i s s s (int w) (int h) = ((x1a, y1a, x2a, y2a), (x1b, y1b, x2b, y2b))"
    and q: "q = clip_row s (place_row (int w) (int h) (x1a - x1b) (y1a - y1b) r)"
  shows "real_of_int x1a \<le> q ! 1 \<and> q ! 1 \<le> real_of_int x2a
       \<and> real_of_int x1a \<le> q ! 3 \<and> q ! 3 \<le> real_of_int x2a
       \<and> real_of_int y1a \<le> q ! 2 \<and> q ! 2 \<le> real_of_int y2a
       \<and> real_of_int y1a \<le> q ! 4 \<and> q ! 4 \<le> real_of_int y2a"
proof -
  obtain c a b d e where r: "r = [c, a, b, d, e]"
    using l by (auto simp: length_Suc_conv eval_nat_numeral)
  define X1 where "X1 = real_of_int (int w) * (a - d / 2)"
  define X2 where "X2 = real_of_int (int w) * (a + d / 2)"
  define Y1 where "Y1 = real_of_int (int h) * (b - e / 2)"
  define Y2 where "Y2 = real_of_int (int h) * (b + e / 2)"
  have ua: "0 \<le> d" "0 \<le> e" "0 \<le> a - d / 2" "a + d / 2 \<le> 1" "0 \<le> b - e / 2" "b + e / 2 \<le> 1"
    using u by (simp_all add: r)
  have ub: "a - d / 2 \<le> 1" "0 \<le> a + d / 2" "b - e / 2 \<le> 1" "0 \<le> b + e / 2"
    using ua by linarith+
  have X: "0 \<le> X1" "X1 \<le> real_of_int (int w)" "0 \<le> X2" "X2 \<le> real_of_int (int w)"
    unfolding X1_def X2_def using ua ub
    by (simp_all add: mult_left_le)
  have Y: "0 \<le> Y1" "Y1 \<le> real_of_int (int h)" "0 \<le> Y2" "Y2 \<le> real_of_int (int h)"
    unfolding Y1_def Y2_def using ua ub
    by (simp_all add: mult_left_le)
  have qv: "q = [c, clip 0 (real_of_int (2 * s)) (X1 + real_of_int (x1a - x1b)),
                    clip 0 (real_of_int (2 * s)) (Y1 + real_of_int (y1a - y1b)),
                    clip 0 (real_of_int (2 * s)) (X2 + real_of_int (x1a - x1b)),
                    clip 0 (real_of_int (2 * s)) (Y2 + real_of_int (y1a - y1b))]"
    unfolding q r X1_def X2_def Y1_def Y2_def
    by (simp add: clip_row_def place_row_def)
  note p = placement_pad[OF s i pl]
  have px: "x1a = max (x1a - x1b) 0" "x2a = min (x1a - x1b + int w) (2 * s)"
    and py: "y1a = max (y1a - y1b) 0" "y2a = min (y1a - y1b + int h) (2 * s)"
    using p by blast+
  note f = placement_fits[OF s i pl]
  have le: "x1a \<le> x2a" "y1a \<le> y2a" using f by blast+
  note c1 = clip_between[OF px le(1) X(1,2)]
  note c3 = clip_between[OF px le(1) X(3,4)]
  note c2 = clip_between[OF py le(2) Y(1,2)]
  note c4 = clip_between[OF py le(2) Y(3,4)]
  have n: "q ! 1 = clip 0 (real_of_int (2 * s)) (X1 + real_of_int (x1a - x1b))"
    "q ! 2 = clip 0 (real_of_int (2 * s)) (Y1 + real_of_int (y1a - y1b))"
    "q ! 3 = clip 0 (real_of_int (2 * s)) (X2 + real_of_int (x1a - x1b))"
    "q ! 4 = clip 0 (real_of_int (2 * s)) (Y2 + real_of_int (y1a - y1b))"
    unfolding qv by simp_all
  show ?thesis unfolding n using c1 c2 c3 c4 by blast
qed

lemma placed_rows:
  "map (clip_row s) (place_labels i s img x) = map (placed_row i s img) x"
proof -
  obtain ra rb where pl: "placement i s s s (int (width img)) (int (height img)) = (ra, rb)"
    by (cases "placement i s s s (int (width img)) (int (height img))") auto
  let ?f = "place_row (int (width img)) (int (height img)) (fst ra - fst rb) (fst (snd ra) - fst (snd rb))"
  have pls: "place_labels i s img y = map ?f y" for y
    by (cases y) (simp_all add: place_labels_def Let_def pl)
  have pr: "placed_row i s img r = clip_row s (?f r)" for r
    by (simp add: placed_row_def pls)
  show ?thesis by (simp add: pls pr)
qed

text \<open>A row whose box lies inside its image lands inside the rectangle of its source.\<close>

lemma placed_row_in_quad:
  assumes s: "0 \<le> s" and i: "i < 4" and l: "length r = 5"
    and u: "0 \<le> r ! 3" "0 \<le> r ! 4"
      "0 \<le> r ! 1 - r ! 3 / 2" "r ! 1 + r ! 3 / 2 \<le> 1" "0 \<le> r ! 2 - r ! 4 / 2" "r ! 2 + r ! 4 / 2 \<le> 1"
  shows "in_quad_box i s img (placed_row i s img r)"
proof -
  obtain x1a y1a x2a y2a x1b y1b x2b y2b
    where pl: "placement i s s s (int (width img)) (int (height img))
                 = ((x1a, y1a, x2a, y2a), (x1b, y1b, x2b, y2b))"
    by (metis prod_cases4 surj_pair)
  have q: "placed_row i s img r
           = clip_row s (place_row (int (width img)) (int (height img)) (x1a - x1b) (y1a - y1b) r)"
    by (simp add: placed_row_def place_labels_def Let_def pl)
  note t = placed_row_inside[OF s i l u pl q]
  show ?thesis
    using t by (simp add: in_quad_box_def pl)
qed

text \<open>
  Claim C6, as stated, fails.  The label row \<open>(0, 1, 1, 1, 1)\<close> passes the checks of
  construction.  With \<open>img_size = 100\<close> and a single image of 100 by 100 pixels, the copy of
  the image in the first quadrant occupies the rectangle \<open>(0, 0, 100, 100)\<close>, and the box of its
  label, after the shift and the clip to the canvas, is \<open>(50, 50, 150, 150)\<close>: it reaches 50
  pixels into the other three quadrants.
\<close>

theorem mosaic_box_counterexample:
  "five_columns [[0, 1, 1, 1, 1]] \<and> non_negative [[0, 1, 1, 1, 1]] \<and> normalized [[0, 1, 1, 1, 1]]
   \<and> map_sum id snd (mosaic_compose ld_edge 0 0 0 0)
       = Inr [[0, 50, 50, 150, 150], [0, 150, 50, 200, 150], [0, 50, 150, 150, 200], [0, 150, 150, 200, 200]]
   \<and> fst (placement 0 100 100 100 100 100) = (0, 0, 100, 100)
   \<and> \<not> in_quad_box 0 100 (blank 100 100) [0, 50, 50, 150, 150]"
proof -
  have a: "five_columns [[0, 1, 1, 1, 1]] \<and> non_negative [[0, 1, 1, 1, 1]] \<and> normalized [[0, 1, 1, 1, 1]]"
    by (simp add: five_columns_def non_negative_def normalized_def)
  have h: "0 \<le> ld_img_size ld_edge" "0 < length (ld_imgs ld_edge)"
    "length (ld_imgs ld_edge) = length (ld_labels ld_edge)"
    "\<forall>img\<in>set (ld_imgs ld_edge). channels img = 3"
    by (simp_all add: ld_edge_def blank_def)
  have pl: "place_labels i 100 (blank 100 100) [[0, 1, 1, 1, 1]]
            = (if i = 0 then [[0, 50, 50, 150, 150]] else if i = 1 then [[0, 150, 50, 250, 150]]
               else if i = 2 then [[0, 50, 150, 150, 250]] else [[0, 150, 150, 250, 250]])" for i
    by (simp add: place_labels_def placement_def place_row_def blank_def Let_def)
  obtain img4 where mc: "mosaic_compose ld_edge 0 0 0 0
      = Inr (img4, map (clip_row (ld_img_size ld_edge))
               (concat [place_labels 0 (ld_img_size ld_edge) (ld_imgs ld_edge ! 0) (ld_labels ld_edge ! 0),
                        place_labels 1 (ld_img_size ld_edge) (ld_imgs ld_edge ! (0 mod length (ld_labels ld_edge)))
                          (ld_labels ld_edge ! (0 mod length (ld_labels ld_edge))),
                        place_labels 2 (ld_img_size ld_edge) (ld_imgs ld_edge ! (0 mod length (ld_labels ld_edge)))
                          (ld_labels ld_edge ! (0 mod length (ld_labels ld_edge))),
                        place_labels 3 (ld_img_size ld_edge) (ld_imgs ld_edge ! (0 mod length (ld_labels ld_edge)))
                          (ld_labels ld_edge ! (0 mod length (ld_labels ld_edge)))]))"
    using mosaic_compose_ok[OF h, of 0 0 0] by blast
  have e: "ld_img_size ld_edge = 100" "ld_imgs ld_edge ! 0 = blank 100 100"
    "ld_labels ld_edge ! 0 = [[0, 1, 1, 1, 1]]" "length (ld_labels ld_edge) = 1"
    by (simp_all add: ld_edge_def)
  have b: "map_sum id snd (mosaic_compose ld_edge 0 0 0 0)
       = Inr [[0, 50, 50, 150, 150], [0, 150, 50, 200, 150], [0, 50, 150, 150, 200], [0, 150, 150, 200, 200]]"
    unfolding mc by (simp add: e pl clip_row_def clip_def)
  have c: "fst (placement 0 100 100 100 100 100) = (0, 0, 100, 100)"
    by (simp add: placement_def Let_def)
  have d: "\<not> in_quad_box 0 100 (blank 100 100) [0, 50, 50, 150, 150]"
    by (simp add: in_quad_box_def placement_def blank_def Let_def)
  show ?thesis using a b c d by blast
qed

text \<open>
  Claim C6, amended.  With \<open>img_size\<close> not negative, the index within the dataset, one label
  array for each image and images of equal channel count, the mosaic is composed.  The
  labels that it passes on are, quadrant after quadrant, the rows of the source placed
  there, each shifted by the offset of its quadrant and clipped to the canvas.  For every row of five columns whose width and height are not negative and
  whose box lies inside its own image (\<open>cx - w/2\<close> and \<open>cy - h/2\<close> at least 0, \<open>cx + w/2\<close> and
  \<open>cy + h/2\<close> at most 1), every coordinate of the shifted and clipped row lies in the rectangle
  of the canvas that the pixels of that source occupy, whatever the other rows of the dataset
  are.  A row whose box reaches outside its image can reach into another quadrant.
\<close>

theorem mosaic_boxes_stay_in_quadrant:
  assumes "0 \<le> ld_img_size self"
    and "index < length (ld_imgs self)"
    and "length (ld_imgs self) = length (ld_labels self)"
    and "\<forall>img\<in>set (ld_imgs self). channels img = c"
  shows "\<exists>img4 indices.
           mosaic_indices (length (ld_labels self)) index k1 k2 k3 = Inr indices
         \<and> length indices = 4
         \<and> mosaic_compose self index k1 k2 k3
             = Inr (img4, concat (map (\<lambda>i. map (placed_row i (ld_img_size self) (ld_imgs self ! (indices ! i)))
                                            (ld_labels self ! (indices ! i)))
                                    [0, 1, 2, 3]))
         \<and> (\<forall>i<4. \<forall>r\<in>set (ld_labels self ! (indices ! i)).
                length r = 5 \<and> 0 \<le> r ! 3 \<and> 0 \<le> r ! 4
                \<and> 0 \<le> r ! 1 - r ! 3 / 2 \<and> r ! 1 + r ! 3 / 2 \<le> 1
                \<and> 0 \<le> r ! 2 - r ! 4 / 2 \<and> r ! 2 + r ! 4 / 2 \<le> 1
                \<longrightarrow> in_quad_box i (ld_img_size self) (ld_imgs self ! (indices ! i))
                      (placed_row i (ld_img_size self) (ld_imgs self ! (indices ! i)) r))"
proof -
  let ?n = "length (ld_labels self)"
  let ?s = "ld_img_size self"
  let ?ix = "[index, k1 mod ?n, k2 mod ?n, k3 mod ?n]"
  have n: "0 < ?n" using assms(2,3) by auto
  have mi: "mosaic_indices ?n index k1 k2 k3 = Inr ?ix"
    by (rule mosaic_indices_ok[OF n])
  obtain img4 where mc: "mosaic_compose self index k1 k2 k3
           = Inr (img4, map (clip_row ?s)
                          (concat [place_labels 0 ?s (ld_imgs self ! index) (ld_labels self ! index),
                                   place_labels 1 ?s (ld_imgs self ! (k1 mod ?n)) (ld_labels self ! (k1 mod ?n)),
                                   place_labels 2 ?s (ld_imgs self ! (k2 mod ?n)) (ld_labels self ! (k2 mod ?n)),
                                   place_labels 3 ?s (ld_imgs self ! (k3 mod ?n)) (ld_labels self ! (k3 mod ?n))]))"
    using mosaic_compose_ok[OF assms(1,2,3,4), of k1 k2 k3] by blast
  have mc': "mosaic_compose self index k1 k2 k3
             = Inr (img4, concat (map (\<lambda>i. map (placed_row i ?s (ld_imgs self ! (?ix ! i)))
                                            (ld_labels self ! (?ix ! i)))
                                    [0, 1, 2, 3]))"
    unfolding mc by (simp add: map_concat placed_rows)
  have inq: "\<forall>i<4. \<forall>r\<in>set (ld_labels self ! (?ix ! i)).
                length r = 5 \<and> 0 \<le> r ! 3 \<and> 0 \<le> r ! 4
                \<and> 0 \<le> r ! 1 - r ! 3 / 2 \<and> r ! 1 + r ! 3 / 2 \<le> 1
                \<and> 0 \<le> r ! 2 - r ! 4 / 2 \<and> r ! 2 + r ! 4 / 2 \<le> 1
                \<longrightarrow> in_quad_box i ?s (ld_imgs self ! (?ix ! i)) (placed_row i ?s (ld_imgs self ! (?ix ! i)) r)"
    using placed_row_in_quad[OF assms(1)] by blast
  have l4: "length ?ix = 4" by simp
  show ?thesis
    by (rule exI[of _ img4], rule exI[of _ ?ix]) (intro conjI; fact mi l4 mc' inq)
qed

theorem mosaic_boxes_stay_in_quadrant_witness:
  "(\<exists>img4. mosaic_compose ld_two 0 1 2 3
       = Inr (img4, concat (map (\<lambda>i. map (placed_row i 100 (ld_imgs ld_two ! ([0, 1, 0, 1] ! i)))
                                      (ld_labels ld_two ! ([0, 1, 0, 1] ! i)))
                              [0, 1, 2, 3])))
   \<and> ld_labels ld_two ! 0 = [[0, 1 / 2, 1 / 2, 1 / 5, 1 / 5], [0, 1, 1, 1, 1]]
   \<and> in_quad_box 0 100 (blank 60 80) (placed_row 0 100 (blank 60 80) [0, 1 / 2, 1 / 2, 1 / 5, 1 / 5])"
proof -
  have h: "0 \<le> ld_img_size ld_two" "0 < length (ld_imgs ld_two)"
    "length (ld_imgs ld_two) = length (ld_labels ld_two)"
    "\<forall>img\<in>set (ld_imgs ld_two). channels img = 3"
    by (simp_all add: ld_two_def blank_def)
  have e: "ld_img_size ld_two = 100" "length (ld_labels ld_two) = 2"
    "ld_imgs ld_two ! 0 = blank 60 80"
    "ld_labels ld_two ! 0 = [[0, 1 / 2, 1 / 2, 1 / 5, 1 / 5], [0, 1, 1, 1, 1]]"
    by (simp_all add: ld_two_def)
  have mi: "mosaic_indices 2 0 1 2 3 = Inr [0, 1, 0, 1]"
    using mosaic_indices_ok[of 2 0 1 2 3] by simp
  note t = mosaic_boxes_stay_in_quadrant[OF h, of 1 2 3]
  obtain img4 indices where
    ix: "mosaic_indices 2 0 1 2 3 = Inr indices"
    and mc: "mosaic_compose ld_two 0 1 2 3
       = Inr (img4, concat (map (\<lambda>i. map (placed_row i 100 (ld_imgs ld_two ! (indices ! i)))
                                      (ld_labels ld_two ! (indices ! i)))
                              [0, 1, 2, 3]))"
    and inq: "\<forall>i<4. \<forall>r\<in>set (ld_labels ld_two ! (indices ! i)).
                length r = 5 \<and> 0 \<le> r ! 3 \<and> 0 \<le> r ! 4
                \<and> 0 \<le> r ! 1 - r ! 3 / 2 \<and> r ! 1 + r ! 3 / 2 \<le> 1
                \<and> 0 \<le> r ! 2 - r ! 4 / 2 \<and> r ! 2 + r ! 4 / 2 \<le> 1
                \<longrightarrow> in_quad_box i 100 (ld_imgs ld_two ! (indices ! i))
                      (placed_row i 100 (ld_imgs ld_two ! (indices ! i)) r)"
    using t unfolding e(1,2) by blast
  have ixe: "indices = [0, 1, 0, 1]" using ix mi by simp
  have i0: "indices ! 0 = 0" unfolding ixe by simp
  have a: "\<exists>img4. mosaic_compose ld_two 0 1 2 3
       = Inr (img4, concat (map (\<lambda>i. map (placed_row i 100 (ld_imgs ld_two ! ([0, 1, 0, 1] ! i)))
                                      (ld_labels ld_two ! ([0, 1, 0, 1] ! i)))
                              [0, 1, 2, 3]))"
    using mc unfolding ixe by blast
  have z4: "(0 :: nat) < 4" by simp
  have "\<forall>r\<in>set (ld_labels ld_two ! (indices ! 0)).
                length r = 5 \<and> 0 \<le> r ! 3 \<and> 0 \<le> r ! 4
                \<and> 0 \<le> r ! 1 - r ! 3 / 2 \<and> r ! 1 + r ! 3 / 2 \<le> 1
                \<and> 0 \<le> r ! 2 - r ! 4 / 2 \<and> r ! 2 + r ! 4 / 2 \<le> 1
                \<longrightarrow> in_quad_box 0 100 (ld_imgs ld_two ! (indices ! 0))
                      (placed_row 0 100 (ld_imgs ld_two ! (indices ! 0)) r)"
    using inq z4 by blast
  then have b: "in_quad_box 0 100 (blank 60 80) (placed_row 0 100 (blank 60 80) [0, 1 / 2, 1 / 2, 1 / 5, 1 / 5])"
    unfolding i0 e(3,4) by simp
  show ?thesis using a e(4) b by blast
qed

lemma check_labels_length:
  assumes "length files = length ls" and "check_labels sc files ls c = Inr (ls1, c1)"
  shows "length ls1 = length ls"
  using assms
proof (induction files ls arbitrary: c ls1 c1 rule: list_induct2)
  case Nil
  then show ?case by simp
next
  case (Cons f fs l ls)
  then show ?case
    by (auto split: sum.splits prod.splits)
qed

lemma dataset_init_fields:
  assumes "dataset_init w cfg img_files label_files cache_path = Inr ds"
    and "length label_files = length img_files"
  shows "ds_mosaic_border ds = ((- img_size cfg) div 2, (- img_size cfg) div 2)
       \<and> length (ds_labels ds) = length img_files"
proof -
  from assms(1) obtain r where r: "get_cache w img_files label_files cache_path = Inr r"
    by (auto simp: dataset_init_def split: if_splits sum.splits)
  from assms(1) r obtain labels shapes
    where ls: "get_labels_shapes (rc_cache r) img_files = Inr (labels, shapes)"
    by (auto simp: dataset_init_def split: if_splits sum.splits)
  have len: "length labels = length img_files" "length shapes = length img_files"
    using get_labels_shapes_length[OF ls] by simp_all
  define rect1 where "rect1 = (if image_weights cfg then False else rect cfg)"
  define irect where "irect = argsort (aspect_ratios shapes)"
  define label_files1 where "label_files1 = (if rect1 then take_idx label_files irect else label_files)"
  define labels1 where "labels1 = (if rect1 then take_idx labels irect else labels)"
  from assms(1) r ls obtain labels2 c
    where ck: "check_labels (single_cls cfg) label_files1 labels1
                 \<lparr> nm = 0, nf = 0, ne = 0, ns = 0, nd = 0 \<rparr> = Inr (labels2, c)"
      and dl: "ds_labels ds = labels2"
      and db: "ds_mosaic_border ds = ((- img_size cfg) div 2, (- img_size cfg) div 2)"
    unfolding dataset_init_def Let_def rect1_def irect_def label_files1_def labels1_def
    by (auto split: if_splits sum.splits prod.splits)
  have la: "length (aspect_ratios shapes) = length img_files"
    by (simp add: aspect_ratios_def len)
  have l1: "length label_files1 = length labels1"
    by (simp add: label_files1_def labels1_def length_take_idx assms(2) len)
  have l2: "length labels1 = length img_files"
    by (simp add: labels1_def length_take_idx irect_def length_argsort la len)
  have "length labels2 = length labels1"
    by (rule check_labels_length[OF l1 ck])
  then show ?thesis using dl db l2 by simp
qed

lemma clip_row_bounds:
  assumes "0 \<le> s"
  shows "\<forall>v\<in>set (drop 1 (clip_row s r)). 0 \<le> v \<and> v \<le> real_of_int (2 * s)"
proof (cases r)
  case Nil
  then show ?thesis by (simp add: clip_row_def)
next
  case (Cons a as)
  have "0 \<le> real_of_int (2 * s)" using assms by simp
  then show ?thesis
    by (auto simp: Cons clip_row_def clip_def min_def max_def)
qed

lemma quad_geometry:
  assumes "0 \<le> s" and "i < 4"
  shows "case placement i s s s (int w) (int h) of
           ((x1a, y1a, x2a, y2a), (x1b, y1b, x2b, y2b)) \<Rightarrow>
              0 \<le> x1a \<and> x1a \<le> x2a \<and> x2a \<le> 2 * s \<and> 0 \<le> y1a \<and> y1a \<le> y2a \<and> y2a \<le> 2 * s
            \<and> (if i = 0 \<or> i = 2 then x2a = s else x1a = s)
            \<and> (if i = 0 \<or> i = 1 then y2a = s else y1a = s)
            \<and> 0 \<le> x1b \<and> x1b + (x2a - x1a) \<le> int w
            \<and> 0 \<le> y1b \<and> y1b + (y2a - y1a) \<le> int h"
proof -
  obtain x1a y1a x2a y2a x1b y1b x2b y2b
    where pl: "placement i s s s (int w) (int h) = ((x1a, y1a, x2a, y2a), (x1b, y1b, x2b, y2b))"
    by (metis prod_cases4 surj_pair)
  note f = placement_fits[OF assms pl]
  have "x1b + (x2a - x1a) \<le> int w" "y1b + (y2a - y1a) \<le> int h"
    using f by linarith+
  then show ?thesis using f by (simp add: pl)
qed

lemma quad_pixels:
  assumes s: "0 \<le> s"
    and px: "\<forall>y x. pixel img4 y x =
               (if in_quad 3 s g3 y x then quad_pixel 3 s g3 y x
                else if in_quad 2 s g2 y x then quad_pixel 2 s g2 y x
                else if in_quad 1 s g1 y x then quad_pixel 1 s g1 y x
                else if in_quad 0 s g0 y x then quad_pixel 0 s g0 y x
                else replicate c 114)"
  shows "(\<forall>i<4. \<forall>y x. in_quad i s ([g0, g1, g2, g3] ! i) y x
              \<longrightarrow> pixel img4 y x = quad_pixel i s ([g0, g1, g2, g3] ! i) y x)
       \<and> (\<forall>y x. (\<forall>i<4. \<not> in_quad i s ([g0, g1, g2, g3] ! i) y x) \<longrightarrow> pixel img4 y x = replicate c 114)"
proof -
  have k: "(0::nat) < 4" "(1::nat) < 4" "(2::nat) < 4" "(3::nat) < 4" by simp_all
  have a: "pixel img4 y x = quad_pixel i s ([g0, g1, g2, g3] ! i) y x"
    if i: "i < 4" and q: "in_quad i s ([g0, g1, g2, g3] ! i) y x" for i y x
  proof -
    have c: "i = 0 \<or> i = 1 \<or> i = 2 \<or> i = 3" using i by linarith
    note sd = in_quad_side[OF s i q]
    have n3: "i \<noteq> 3 \<Longrightarrow> \<not> in_quad 3 s g3 y x"
      using in_quad_side[OF s k(4), of g3 y x] sd c by auto
    have n2: "i \<noteq> 2 \<Longrightarrow> \<not> in_quad 2 s g2 y x"
      using in_quad_side[OF s k(3), of g2 y x] sd c by auto
    have n1: "i \<noteq> 1 \<Longrightarrow> \<not> in_quad 1 s g1 y x"
      using in_quad_side[OF s k(2), of g1 y x] sd c by auto
    show ?thesis
      using c q n1 n2 n3 px by auto
  qed
  have b: "pixel img4 y x = replicate c 114"
    if "\<forall>i<4. \<not> in_quad i s ([g0, g1, g2, g3] ! i) y x" for y x
  proof -
    have "\<not> in_quad 0 s g0 y x" "\<not> in_quad 1 s g1 y x" "\<not> in_quad 2 s g2 y x" "\<not> in_quad 3 s g3 y x"
      using that[rule_format, OF k(1)] that[rule_format, OF k(2)]
        that[rule_format, OF k(3)] that[rule_format, OF k(4)] by simp_all
    then show ?thesis using px by simp
  qed
  show ?thesis using a b by blast
qed

text \<open>
  Claim C5, as stated, fails: the centre is not perturbed.  With \<open>img_size = 100\<close> and one image
  of 60 rows and 80 columns, the first quadrant is the rectangle \<open>(20, 40, 100, 100)\<close>; for the
  draws \<open>(0, 0, 0)\<close> and for the draws \<open>(7, 11, 13)\<close> alike, the last pixel \<open>(59, 79)\<close> of the
  source is at \<open>(99, 99)\<close> of the canvas and the first pixel of the source in the fourth
  quadrant at \<open>(100, 100)\<close>.
\<close>

theorem mosaic_centre_counterexample:
  "fst (placement 0 100 100 100 80 60) = (20, 40, 100, 100)
   \<and> pixel_at (mosaic_compose ld_grad 0 0 0 0) 99 99 = Some [59, 79, 0]
   \<and> pixel_at (mosaic_compose ld_grad 0 0 0 0) 100 100 = Some [0, 0, 0]
   \<and> pixel_at (mosaic_compose ld_grad 0 7 11 13) 99 99 = Some [59, 79, 0]
   \<and> pixel_at (mosaic_compose ld_grad 0 7 11 13) 100 100 = Some [0, 0, 0]"
proof -
  have h: "0 \<le> ld_img_size ld_grad" "0 < length (ld_imgs ld_grad)"
    "length (ld_imgs ld_grad) = length (ld_labels ld_grad)"
    "\<forall>img\<in>set (ld_imgs ld_grad). channels img = 3"
    by (simp_all add: ld_grad_def grad_def)
  have e: "ld_img_size ld_grad = 100" "ld_imgs ld_grad ! 0 = grad 60 80" "length (ld_labels ld_grad) = 1"
    by (simp_all add: ld_grad_def)
  have q3: "in_quad 3 100 (grad 60 80) 100 100" "\<not> in_quad 3 100 (grad 60 80) 99 99"
    "quad_pixel 3 100 (grad 60 80) 100 100 = [0, 0, 0]"
    by (simp_all add: in_quad_def quad_pixel_def placement_def grad_def Let_def)
  have q2: "\<not> in_quad 2 100 (grad 60 80) 99 99"
    by (simp add: in_quad_def placement_def grad_def Let_def)
  have q1: "\<not> in_quad 1 100 (grad 60 80) 99 99"
    by (simp add: in_quad_def placement_def grad_def Let_def)
  have q0: "in_quad 0 100 (grad 60 80) 99 99" "quad_pixel 0 100 (grad 60 80) 99 99 = [59, 79, 0]"
    by (simp_all add: in_quad_def quad_pixel_def placement_def grad_def Let_def)
  have e': "ld_imgs ld_grad ! (k mod length (ld_labels ld_grad)) = grad 60 80" for k
    by (simp add: ld_grad_def)
  have p: "pixel_at (mosaic_compose ld_grad 0 k1 k2 k3) 99 99 = Some [59, 79, 0]
         \<and> pixel_at (mosaic_compose ld_grad 0 k1 k2 k3) 100 100 = Some [0, 0, 0]" for k1 k2 k3
  proof -
    let ?n = "length (ld_labels ld_grad)"
    let ?s = "ld_img_size ld_grad"
    obtain img4 l4 where mc: "mosaic_compose ld_grad 0 k1 k2 k3 = Inr (img4, l4)"
      and px: "\<forall>y x. pixel img4 y x =
               (if in_quad 3 ?s (ld_imgs ld_grad ! (k3 mod ?n)) y x
                then quad_pixel 3 ?s (ld_imgs ld_grad ! (k3 mod ?n)) y x
                else if in_quad 2 ?s (ld_imgs ld_grad ! (k2 mod ?n)) y x
                then quad_pixel 2 ?s (ld_imgs ld_grad ! (k2 mod ?n)) y x
                else if in_quad 1 ?s (ld_imgs ld_grad ! (k1 mod ?n)) y x
                then quad_pixel 1 ?s (ld_imgs ld_grad ! (k1 mod ?n)) y x
                else if in_quad 0 ?s (ld_imgs ld_grad ! 0) y x
                then quad_pixel 0 ?s (ld_imgs ld_grad ! 0) y x
                else replicate 3 114)"
      using mosaic_compose_ok[OF h, of k1 k2 k3] by blast
    note px' = px[unfolded e' e(1) e(2)]
    have a: "pixel img4 99 99 = [59, 79, 0]"
      using px'[rule_format, of 99 99] q0 q1 q2 q3 by simp
    have b: "pixel img4 100 100 = [0, 0, 0]"
      using px'[rule_format, of 100 100] q3 by simp
    show ?thesis by (simp add: pixel_at_def mc a b)
  qed
  have c: "fst (placement 0 100 100 100 80 60) = (20, 40, 100, 100)"
    by (simp add: placement_def Let_def)
  show ?thesis using c p[of 0 0 0] p[of 7 11 13] by blast
qed

text \<open>
  Claim C5, amended.  After construction, with \<open>img_size\<close> not negative and images of equal
  channel count, \<open>load_mosaic\<close> takes the requested index first and three indices drawn from
  the dataset, and builds a canvas of side \<open>2 * img_size\<close>.  The four sources lie in the four
  quadrants around the fixed centre \<open>(img_size, img_size)\<close>: each rectangle has a corner at the
  centre, lies on the canvas, and holds the pixels of the source cropped to the size of the
  rectangle; every other pixel of the canvas is 114.  The four label sets are concatenated in
  this order, every coordinate clipped to \<open>0 .. 2 * img_size\<close>, and canvas and labels go to
  \<open>random_perspective\<close> with the border \<open>-img_size // 2\<close> on each axis.
\<close>

theorem load_mosaic_composition:
  assumes init: "dataset_init w cfg img_files label_files cache_path = Inr ds"
    and lf: "length label_files = length img_files"
    and s: "0 \<le> img_size cfg"
    and li: "length imgs = length img_files"
    and idx: "index < length imgs"
    and ch: "\<forall>img\<in>set imgs. channels img = c"
  shows "\<exists>indices img4 labels4.
      mosaic_indices (length (ds_labels ds)) index k1 k2 k3 = Inr indices
    \<and> length indices = 4 \<and> indices ! 0 = index \<and> (\<forall>j\<in>set indices. j < length imgs)
    \<and> mosaic_compose (loader_of cfg hp ds imgs) index k1 k2 k3 = Inr (img4, labels4)
    \<and> height img4 = nat (img_size cfg * 2) \<and> width img4 = nat (img_size cfg * 2)
    \<and> (\<forall>i<4. \<forall>y x. in_quad i (img_size cfg) (imgs ! (indices ! i)) y x
           \<longrightarrow> pixel img4 y x = quad_pixel i (img_size cfg) (imgs ! (indices ! i)) y x)
    \<and> (\<forall>y x. (\<forall>i<4. \<not> in_quad i (img_size cfg) (imgs ! (indices ! i)) y x)
           \<longrightarrow> pixel img4 y x = replicate c 114)
    \<and> (\<forall>i<4. case placement i (img_size cfg) (img_size cfg) (img_size cfg)
                     (int (width (imgs ! (indices ! i)))) (int (height (imgs ! (indices ! i)))) of
           ((x1a, y1a, x2a, y2a), (x1b, y1b, x2b, y2b)) \<Rightarrow>
              0 \<le> x1a \<and> x1a \<le> x2a \<and> x2a \<le> 2 * img_size cfg
            \<and> 0 \<le> y1a \<and> y1a \<le> y2a \<and> y2a \<le> 2 * img_size cfg
            \<and> (if i = 0 \<or> i = 2 then x2a = img_size cfg else x1a = img_size cfg)
            \<and> (if i = 0 \<or> i = 1 then y2a = img_size cfg else y1a = img_size cfg)
            \<and> 0 \<le> x1b \<and> x1b + (x2a - x1a) \<le> int (width (imgs ! (indices ! i)))
            \<and> 0 \<le> y1b \<and> y1b + (y2a - y1a) \<le> int (height (imgs ! (indices ! i))))
    \<and> labels4 = map (clip_row (img_size cfg))
                   (concat (map (\<lambda>i. place_labels i (img_size cfg) (imgs ! (indices ! i))
                                        (ds_labels ds ! (indices ! i))) [0, 1, 2, 3]))
    \<and> (\<forall>r\<in>set labels4. \<forall>v\<in>set (drop 1 r). 0 \<le> v \<and> v \<le> real_of_int (2 * img_size cfg))
    \<and> load_mosaic cv (loader_of cfg hp ds imgs) index k1 k2 k3 d
        = random_perspective cv img4 labels4 hp ((- img_size cfg) div 2, (- img_size cfg) div 2) d"
proof -
  let ?self = "loader_of cfg hp ds imgs"
  let ?s = "img_size cfg"
  let ?n = "length (ds_labels ds)"
  let ?ix = "[index, k1 mod ?n, k2 mod ?n, k3 mod ?n]"
  note fl = dataset_init_fields[OF init lf]
  have bd: "ds_mosaic_border ds = ((- ?s) div 2, (- ?s) div 2)" and nl: "?n = length img_files"
    using fl by blast+
  have ni: "?n = length imgs" using nl li by simp
  have n: "0 < ?n" using idx ni by auto
  have f: "ld_img_size ?self = ?s" "ld_imgs ?self = imgs" "ld_labels ?self = ds_labels ds"
    "ld_hyp ?self = hp" "ld_mosaic_border ?self = ((- ?s) div 2, (- ?s) div 2)"
    by (simp_all add: loader_of_def bd)
  have h: "0 \<le> ld_img_size ?self" "index < length (ld_imgs ?self)"
    "length (ld_imgs ?self) = length (ld_labels ?self)" "\<forall>img\<in>set (ld_imgs ?self). channels img = c"
    using s idx ni ch by (simp_all add: f)
  have mi: "mosaic_indices ?n index k1 k2 k3 = Inr ?ix"
    by (rule mosaic_indices_ok[OF n])
  let ?l4 = "map (clip_row ?s)
               (concat [place_labels 0 ?s (imgs ! index) (ds_labels ds ! index),
                        place_labels 1 ?s (imgs ! (k1 mod ?n)) (ds_labels ds ! (k1 mod ?n)),
                        place_labels 2 ?s (imgs ! (k2 mod ?n)) (ds_labels ds ! (k2 mod ?n)),
                        place_labels 3 ?s (imgs ! (k3 mod ?n)) (ds_labels ds ! (k3 mod ?n))])"
  obtain img4 where mc: "mosaic_compose ?self index k1 k2 k3 = Inr (img4, ?l4)"
    and sh: "height img4 = nat (?s * 2)" "width img4 = nat (?s * 2)"
    and px: "\<forall>y x. pixel img4 y x =
               (if in_quad 3 ?s (imgs ! (k3 mod ?n)) y x then quad_pixel 3 ?s (imgs ! (k3 mod ?n)) y x
                else if in_quad 2 ?s (imgs ! (k2 mod ?n)) y x then quad_pixel 2 ?s (imgs ! (k2 mod ?n)) y x
                else if in_quad 1 ?s (imgs ! (k1 mod ?n)) y x then quad_pixel 1 ?s (imgs ! (k1 mod ?n)) y x
                else if in_quad 0 ?s (imgs ! index) y x then quad_pixel 0 ?s (imgs ! index) y x
                else replicate c 114)"
    using mosaic_compose_ok[OF h, of k1 k2 k3] unfolding f by blast
  have ixn: "imgs ! (?ix ! i) = [imgs ! index, imgs ! (k1 mod ?n), imgs ! (k2 mod ?n), imgs ! (k3 mod ?n)] ! i"
    if "i < 4" for i
  proof -
    have "i = 0 \<or> i = 1 \<or> i = 2 \<or> i = 3" using that by linarith
    then show ?thesis by auto
  qed
  note qp = quad_pixels[OF s px]
  have p1: "\<forall>i<4. \<forall>y x. in_quad i ?s (imgs ! (?ix ! i)) y x
           \<longrightarrow> pixel img4 y x = quad_pixel i ?s (imgs ! (?ix ! i)) y x"
    using qp ixn by simp
  have p2: "\<forall>y x. (\<forall>i<4. \<not> in_quad i ?s (imgs ! (?ix ! i)) y x) \<longrightarrow> pixel img4 y x = replicate c 114"
    using qp ixn by simp
  have g: "\<forall>i<4. case placement i ?s ?s ?s (int (width (imgs ! (?ix ! i)))) (int (height (imgs ! (?ix ! i)))) of
           ((x1a, y1a, x2a, y2a), (x1b, y1b, x2b, y2b)) \<Rightarrow>
              0 \<le> x1a \<and> x1a \<le> x2a \<and> x2a \<le> 2 * ?s
            \<and> 0 \<le> y1a \<and> y1a \<le> y2a \<and> y2a \<le> 2 * ?s
            \<and> (if i = 0 \<or> i = 2 then x2a = ?s else x1a = ?s)
            \<and> (if i = 0 \<or> i = 1 then y2a = ?s else y1a = ?s)
            \<and> 0 \<le> x1b \<and> x1b + (x2a - x1a) \<le> int (width (imgs ! (?ix ! i)))
            \<and> 0 \<le> y1b \<and> y1b + (y2a - y1a) \<le> int (height (imgs ! (?ix ! i)))"
  proof (intro allI impI)
    fix i :: nat assume "i < 4"
    then show "case placement i ?s ?s ?s (int (width (imgs ! (?ix ! i)))) (int (height (imgs ! (?ix ! i)))) of
           ((x1a, y1a, x2a, y2a), (x1b, y1b, x2b, y2b)) \<Rightarrow>
              0 \<le> x1a \<and> x1a \<le> x2a \<and> x2a \<le> 2 * ?s
            \<and> 0 \<le> y1a \<and> y1a \<le> y2a \<and> y2a \<le> 2 * ?s
            \<and> (if i = 0 \<or> i = 2 then x2a = ?s else x1a = ?s)
            \<and> (if i = 0 \<or> i = 1 then y2a = ?s else y1a = ?s)
            \<and> 0 \<le> x1b \<and> x1b + (x2a - x1a) \<le> int (width (imgs ! (?ix ! i)))
            \<and> 0 \<le> y1b \<and> y1b + (y2a - y1a) \<le> int (height (imgs ! (?ix ! i)))"
      by (rule quad_geometry[OF s])
  qed
  have l4: "?l4 = map (clip_row ?s)
                   (concat (map (\<lambda>i. place_labels i ?s (imgs ! (?ix ! i)) (ds_labels ds ! (?ix ! i))) [0, 1, 2, 3]))"
    by simp
  have cb: "\<forall>r\<in>set ?l4. \<forall>v\<in>set (drop 1 r). 0 \<le> v \<and> v \<le> real_of_int (2 * ?s)"
    using clip_row_bounds[OF s] by (auto simp del: concat.simps)
  have lm: "load_mosaic cv ?self index k1 k2 k3 d
        = random_perspective cv img4 ?l4 hp ((- ?s) div 2, (- ?s) div 2) d"
    by (simp only: load_mosaic_def mc sum.case prod.case f)
  have i0: "?ix ! 0 = index" "length ?ix = 4" by simp_all
  have il: "\<forall>j\<in>set ?ix. j < length imgs"
    using idx n ni by auto
  show ?thesis
    apply (rule exI[of _ ?ix], rule exI[of _ img4], rule exI[of _ ?l4])
    apply (intro conjI)
    apply (fact mi i0 il mc sh p1 p2 g l4 cb lm)+
    done
qed

theorem load_mosaic_composition_witness:
  "\<exists>ds indices img4 labels4.
      dataset_init fs1 cfg0 imgs0 labs0 ''labels.cache'' = Inr ds
    \<and> mosaic_indices (length (ds_labels ds)) 0 1 2 3 = Inr indices
    \<and> length indices = 4 \<and> indices ! 0 = 0
    \<and> mosaic_compose (loader_of cfg0 id_hyp ds [blank 480 640, blank 200 100, blank 240 320]) 0 1 2 3
         = Inr (img4, labels4)
    \<and> height img4 = 1280 \<and> width img4 = 1280
    \<and> load_mosaic cv0 (loader_of cfg0 id_hyp ds [blank 480 640, blank 200 100, blank 240 320]) 0 1 2 3 rp0
        = random_perspective cv0 img4 labels4 id_hyp (- 320, - 320) rp0"
proof -
  have "\<exists>ds. dataset_init fs1 cfg0 imgs0 labs0 ''labels.cache'' = Inr ds"
    by (simp add: Let_def dataset_init_def get_cache_def get_labels_shapes_def cache_labels_def
        fs1_def fs0_def imgs0_def labs0_def cfg0_def scan_one_def isfile_def check_label_def
        five_columns_def non_negative_def normalized_def has_duplicates_def)
  then obtain ds where init: "dataset_init fs1 cfg0 imgs0 labs0 ''labels.cache'' = Inr ds" ..
  have lf: "length labs0 = length imgs0" by (simp add: labs0_def imgs0_def)
  have s: "0 \<le> img_size cfg0" by (simp add: cfg0_def)
  have li: "length [blank 480 640, blank 200 100, blank 240 320] = length imgs0"
    by (simp add: imgs0_def)
  have idx: "0 < length [blank 480 640, blank 200 100, blank 240 320]" by simp
  have ch: "\<forall>img\<in>set [blank 480 640, blank 200 100, blank 240 320]. channels img = 3"
    by (simp add: blank_def)
  note t = load_mosaic_composition[OF init lf s li idx ch, of 1 2 3 id_hyp cv0 rp0]
  have e: "img_size cfg0 = 640" by (simp add: cfg0_def)
  have n: "nat (640 * 2) = 1280" "(- 640) div 2 = (- 320 :: int)" by simp_all
  from t obtain indices img4 labels4 where
    a: "mosaic_indices (length (ds_labels ds)) 0 1 2 3 = Inr indices"
    and b: "length indices = 4" "indices ! 0 = 0"
    and c: "mosaic_compose (loader_of cfg0 id_hyp ds [blank 480 640, blank 200 100, blank 240 320]) 0 1 2 3
         = Inr (img4, labels4)"
    and d: "height img4 = nat (img_size cfg0 * 2)" "width img4 = nat (img_size cfg0 * 2)"
    and f: "load_mosaic cv0 (loader_of cfg0 id_hyp ds [blank 480 640, blank 200 100, blank 240 320]) 0 1 2 3 rp0
        = random_perspective cv0 img4 labels4 id_hyp ((- img_size cfg0) div 2, (- img_size cfg0) div 2) rp0"
    by blast
  have d': "height img4 = 1280" "width img4 = 1280" using d unfolding e n by simp_all
  have f': "load_mosaic cv0 (loader_of cfg0 id_hyp ds [blank 480 640, blank 200 100, blank 240 320]) 0 1 2 3 rp0
        = random_perspective cv0 img4 labels4 id_hyp (- 320, - 320) rp0"
    using f unfolding e n .
  show ?thesis using init a b c d' f' by blast
qed

end
